theory Spec2Isabelle
  imports Complex_Main
begin

section \<open>The V3 quote provider: batching, validation and retry\<close>

text \<open>
  A shallow embedding of \<^verbatim>\<open>src/providers/v3/quote-provider.ts\<close>. The class
  \<^verbatim>\<open>V3QuoteProvider\<close> fetches quotes for every (route, amount) pair through a
  multicall aggregator, in batches, inside a retry loop.

  The collaborators the class receives are parameters of the model: the route encoder,
  the hex form of an amount, the multicall aggregator and the provider's current block
  number. The aggregator is an arbitrary function of the attempt number and the batch index
  (within one attempt every batch is called at most once), so any sequence of replies can
  be represented. All batches of an attempt are joined before validation, hence the
  parallel calls of one attempt are modelled as a map over the batch vector.
  Log lines and the count metrics emitted after the retry loop do not influence control
  flow or the returned value and are left out; the retry metrics are kept as a list of
  names.
\<close>

subsection \<open>JavaScript numbers as far as the code needs them\<close>

text \<open>
  The code divides array lengths and compares the quotient with a configured rate. The
  quotient of two lengths is a finite value, \<^verbatim>\<open>Infinity\<close> (n / 0 with n > 0) or
  \<^verbatim>\<open>NaN\<close> (0 / 0). Finite values are kept as exact rationals (rounding to a double
  is not modelled); the two special values and their IEEE rules are explicit.
\<close>

datatype js_number = NaN | PosInf | Fin rat

fun js_div :: "js_number \<Rightarrow> js_number \<Rightarrow> js_number" where
  "js_div NaN _ = NaN"
| "js_div _ NaN = NaN"
| "js_div PosInf PosInf = NaN"
| "js_div PosInf (Fin b) = PosInf"
| "js_div (Fin a) PosInf = Fin 0"
| "js_div (Fin a) (Fin b) =
     (if b = 0 then (if a = 0 then NaN else PosInf) else Fin (a / b))"

fun js_ceil :: "js_number \<Rightarrow> js_number" where
  "js_ceil NaN = NaN"
| "js_ceil PosInf = PosInf"
| "js_ceil (Fin a) = Fin (of_int \<lceil>a\<rceil>)"

fun js_lt :: "js_number \<Rightarrow> js_number \<Rightarrow> bool" where
  "js_lt NaN _ = False"
| "js_lt _ NaN = False"
| "js_lt PosInf _ = False"
| "js_lt (Fin a) PosInf = True"
| "js_lt (Fin a) (Fin b) = (a < b)"

definition js_of_nat :: "nat \<Rightarrow> js_number" where
  "js_of_nat n = Fin (of_nat n)"

text \<open>
  lodash's \<^verbatim>\<open>toInteger\<close> followed by \<^verbatim>\<open>max(_, 0)\<close>, as \<^verbatim>\<open>_.chunk\<close>
  applies it to its size argument: \<^verbatim>\<open>NaN\<close> becomes 0, \<^verbatim>\<open>Infinity\<close> becomes the
  largest double, a finite value is truncated.
\<close>

fun js_toSize :: "js_number \<Rightarrow> nat" where
  "js_toSize NaN = 0"
| "js_toSize PosInf = 2 ^ 1024 - 2 ^ 971"
| "js_toSize (Fin a) = nat \<lfloor>a\<rfloor>"

subsection \<open>lodash helpers\<close>

text \<open>\<^verbatim>\<open>_.chunk(array, size)\<close>: the empty list when the array is empty or the size is
  below 1, otherwise consecutive slices of \<open>size\<close> elements, the last one possibly shorter.\<close>

fun chunk :: "'a list \<Rightarrow> nat \<Rightarrow> 'a list list" where
  "chunk [] n = []"
| "chunk (x # xs) 0 = []"
| "chunk (x # xs) (Suc n) = (x # take n xs) # chunk (drop n xs) (Suc n)"

text \<open>\<^verbatim>\<open>_.uniq\<close>: the first occurrence of every value, in order.\<close>

fun uniq :: "'a list \<Rightarrow> 'a list" where
  "uniq [] = []"
| "uniq (x # xs) = x # uniq (filter (\<lambda>y. y \<noteq> x) xs)"

subsection \<open>Strings\<close>

fun startsWith :: "string \<Rightarrow> string \<Rightarrow> bool" where
  "startsWith s [] = True"
| "startsWith [] (c # cs) = False"
| "startsWith (x # xs) (c # cs) = (x = c \<and> startsWith xs cs)"

text \<open>\<^verbatim>\<open>String.prototype.includes\<close>: the argument occurs somewhere in the string.\<close>

fun str_includes :: "string \<Rightarrow> string \<Rightarrow> bool" where
  "str_includes [] sub = (sub = [])"
| "str_includes (x # xs) sub = (startsWith (x # xs) sub \<or> str_includes xs sub)"

text \<open>\<^verbatim>\<open>slice(0, 500)\<close> on a string keeps its first 500 characters.\<close>

definition slice500 :: "string \<Rightarrow> string" where
  "slice500 s = take 500 s"

definition digit_char :: "nat \<Rightarrow> char" where
  "digit_char d = char_of (48 + d)"

text \<open>Decimal rendering of an array index or length in a template string.\<close>

fun show_nat :: "nat \<Rightarrow> string" where
  "show_nat n = (if n < 10 then [digit_char n] else show_nat (n div 10) @ [digit_char (n mod 10)])"

declare show_nat.simps [simp del]

subsection \<open>Data model\<close>

type_synonym encoded_input = "string \<times> string"

text \<open>The quoter's reply tuple: amount, sqrtPriceX96AfterList, initializedTicksCrossedList,
  gasEstimate.\<close>

type_synonym quote_tuple = "int \<times> int list \<times> int list \<times> int"

text \<open>
  Modelled from the spec: the type \<^verbatim>\<open>Result\<close> of \<^verbatim>\<open>../multicall-provider\<close> is not
  among the sources. The spec gives each per-input reply as a success flag with the tuple
  present exactly when the flag is set; the failure case carries the raw return data.
\<close>

datatype raw_result = ResultOk quote_tuple | ResultErr string

fun success :: "raw_result \<Rightarrow> bool" where
  "success (ResultOk _) = True"
| "success (ResultErr _) = False"

text \<open>What one aggregator call returns.\<close>

record multicall_results =
  blockNumber :: int
  results :: "raw_result list"
  approxGasUsedPerSuccessCall :: nat

text \<open>
  The error classes. \<open>UnknownError\<close> is a plain \<^verbatim>\<open>Error\<close>. The provider errors carry
  their message. \<open>SuccessRateError\<close> carries the two numbers its message interpolates
  (threshold and rate), \<open>BlockConflictError\<close> the distinct block numbers, the number of
  calls and the gas limit of its message.
\<close>

datatype error_reason =
    BlockConflictError "int list" nat nat
  | SuccessRateError js_number js_number
  | ProviderBlockHeaderError string
  | ProviderTimeoutError string
  | ProviderGasError string
  | UnknownError string

fun reason_name :: "error_reason \<Rightarrow> string" where
  "reason_name (BlockConflictError _ _ _) = ''BlockConflictError''"
| "reason_name (SuccessRateError _ _) = ''SuccessRateError''"
| "reason_name (ProviderBlockHeaderError _) = ''ProviderBlockHeaderError''"
| "reason_name (ProviderTimeoutError _) = ''ProviderTimeoutError''"
| "reason_name (ProviderGasError _) = ''ProviderGasError''"
| "reason_name (UnknownError _) = ''Error''"

text \<open>\<^verbatim>\<open>QuoteBatchState\<close>: the union of the pending, success and failed batch records.\<close>

datatype QuoteBatchState =
    Pending "encoded_input list"
  | Success "encoded_input list" multicall_results
  | Failed "encoded_input list" error_reason "multicall_results option"

fun inputs :: "QuoteBatchState \<Rightarrow> encoded_input list" where
  "inputs (Pending ins) = ins"
| "inputs (Success ins _) = ins"
| "inputs (Failed ins _ _) = ins"

fun is_success :: "QuoteBatchState \<Rightarrow> bool" where
  "is_success (Success _ _) = True"
| "is_success _ = False"

fun is_failed :: "QuoteBatchState \<Rightarrow> bool" where
  "is_failed (Failed _ _ _) = True"
| "is_failed _ = False"

fun is_pending :: "QuoteBatchState \<Rightarrow> bool" where
  "is_pending (Pending _) = True"
| "is_pending _ = False"

text \<open>\<^verbatim>\<open>V3AmountQuote\<close>: the amount and four nullable fields.\<close>

record 'a V3AmountQuote =
  amount :: 'a
  quote :: "int option"
  sqrtPriceX96AfterList :: "int list option"
  initializedTicksCrossedList :: "int list option"
  gasEstimate :: "int option"

text \<open>
  The constructor arguments of the provider that the batching logic reads:
  \<^verbatim>\<open>retryOptions.retries\<close>, the three fields of \<^verbatim>\<open>batchParams\<close>, the two fields of
  \<^verbatim>\<open>successRateFailureOverrides\<close> and \<^verbatim>\<open>rollback\<close>. \<open>multicallChunk\<close> counts inputs
  and the gas limits count gas, so they are natural numbers.
\<close>

record provider_params =
  retries :: nat
  batch_multicallChunk :: nat
  batch_gasLimitPerCall :: nat
  quoteMinSuccessRate :: js_number
  override_gasLimitOverride :: nat
  override_multicallChunk :: nat
  rollback :: bool

text \<open>
  The mutable locals of one call of \<^verbatim>\<open>getQuotesManyData\<close>, with the names of the source.
  \<open>providerConfig_blockNumber\<close> is \<^verbatim>\<open>providerConfig.blockNumber\<close>, taken as a number (a
  promise passed by the caller is not modelled). \<open>retryAll\<close> is local to an attempt and is set
  anew in each. \<open>metrics\<close> lists the names of the retry metrics in the order they are emitted.
\<close>

record call_state =
  quoteStates :: "QuoteBatchState list"
  multicallChunk :: nat
  gasLimitOverride :: nat
  providerConfig_blockNumber :: int
  retryAll :: bool
  haveRetriedForSuccessRate :: bool
  haveRetriedForBlockHeader :: bool
  blockHeaderRetryAttemptNumber :: "nat option"
  blockHeaderRolledBack :: bool
  haveRetriedForBlockConflictError :: bool
  haveRetriedForOutOfGas :: bool
  haveRetriedForTimeout :: bool
  haveRetriedForUnknownReason :: bool
  totalCallsMade :: nat
  metrics :: "string list"

subsection \<open>Input planner\<close>

datatype function_name = QuoteExactInput | QuoteExactOutput

text \<open>The flat input vector: for every route, in order, one pair per amount, in order. The
  route is encoded with the reverse flag set exactly for \<^verbatim>\<open>quoteExactOutput\<close>.\<close>

definition plan_inputs ::
  "('r \<Rightarrow> bool \<Rightarrow> string) \<Rightarrow> ('a \<Rightarrow> string) \<Rightarrow> function_name \<Rightarrow> 'r list \<Rightarrow> 'a list
    \<Rightarrow> encoded_input list" where
  "plan_inputs encodeRouteToPath amountHex functionName routes amounts =
     concat (map (\<lambda>route.
        let encodedRoute = encodeRouteToPath route (functionName = QuoteExactOutput)
        in map (\<lambda>amount. (encodedRoute, amountHex amount)) amounts) routes)"

text \<open>\<^verbatim>\<open>Math.ceil(inputs.length / Math.ceil(inputs.length / multicallChunk))\<close>.\<close>

definition normalizedChunk :: "nat \<Rightarrow> nat \<Rightarrow> js_number" where
  "normalizedChunk n c =
     js_ceil (js_div (js_of_nat n) (js_ceil (js_div (js_of_nat n) (js_of_nat c))))"

definition inputsChunked :: "encoded_input list \<Rightarrow> nat \<Rightarrow> encoded_input list list" where
  "inputsChunked ins c = chunk ins (js_toSize (normalizedChunk (length ins) c))"

definition pending_states :: "encoded_input list \<Rightarrow> nat \<Rightarrow> QuoteBatchState list" where
  "pending_states ins c = map Pending (inputsChunked ins c)"

subsection \<open>Validators\<close>

text \<open>\<^verbatim>\<open>(1.0 * numSuccessResults) / numResults\<close>.\<close>

definition successRate :: "raw_result list \<Rightarrow> js_number" where
  "successRate allResults =
     (let numResults = length allResults;
          numSuccessResults = length (filter success allResults)
      in js_div (js_of_nat numSuccessResults) (js_of_nat numResults))"

definition validateSuccessRate ::
  "provider_params \<Rightarrow> raw_result list \<Rightarrow> bool \<Rightarrow> error_reason option" where
  "validateSuccessRate p allResults haveRetried =
     (if js_lt (successRate allResults) (quoteMinSuccessRate p)
      then (if haveRetried then None
            else Some (SuccessRateError (quoteMinSuccessRate p) (successRate allResults)))
      else None)"

definition validateBlockNumbers ::
  "(encoded_input list \<times> multicall_results) list \<Rightarrow> nat \<Rightarrow> nat \<Rightarrow> error_reason option" where
  "validateBlockNumbers successfulQuoteStates totalCalls gasLimit =
     (if length successfulQuoteStates \<le> 1 then None
      else let uniqBlocks = uniq (map (\<lambda>q. blockNumber (snd q)) successfulQuoteStates)
           in if length uniqBlocks = 1 then None
              else Some (BlockConflictError uniqBlocks totalCalls gasLimit))"

subsection \<open>Batch executor\<close>

text \<open>The \<^verbatim>\<open>catch\<close> block of the per-batch task: the message tests, in the order of
  the source.\<close>

definition classify_error :: "nat \<Rightarrow> nat \<Rightarrow> encoded_input list \<Rightarrow> string \<Rightarrow> error_reason" where
  "classify_error idx numStates ins msg =
     (if str_includes msg ''header not found'' then ProviderBlockHeaderError (slice500 msg)
      else if str_includes msg ''timeout'' then
        ProviderTimeoutError (''Req '' @ show_nat idx @ ''/'' @ show_nat numStates
          @ ''. Request had '' @ show_nat (length ins) @ '' inputs. '' @ slice500 msg)
      else if str_includes msg ''out of gas'' then ProviderGasError (slice500 msg)
      else UnknownError (''Unknown error from provider: '' @ slice500 msg))"

text \<open>The aggregator: attempt number, batch index, the batch's inputs, the pinned block and
  the gas limit per call; \<open>Inl\<close> is a thrown error with its message.\<close>

type_synonym multicall =
  "nat \<Rightarrow> nat \<Rightarrow> encoded_input list \<Rightarrow> int \<Rightarrow> nat \<Rightarrow> string + multicall_results"

definition run_batch ::
  "provider_params \<Rightarrow> multicall \<Rightarrow> nat \<Rightarrow> call_state \<Rightarrow> nat \<Rightarrow> nat \<Rightarrow> QuoteBatchState
    \<Rightarrow> QuoteBatchState" where
  "run_batch p mc attemptNumber cs numStates idx quoteState =
     (if is_success quoteState then quoteState
      else let ins = inputs quoteState in
        case mc attemptNumber idx ins (providerConfig_blockNumber cs) (gasLimitOverride cs) of
          Inr res \<Rightarrow>
            (case validateSuccessRate p (results res) (haveRetriedForSuccessRate cs) of
               Some successRateError \<Rightarrow> Failed ins successRateError (Some res)
             | None \<Rightarrow> Success ins res)
        | Inl msg \<Rightarrow> Failed ins (classify_error idx numStates ins msg) None)"

text \<open>One attempt runs every batch that is not yet successful; \<open>totalCallsMade\<close> is
  incremented once per call issued.\<close>

definition execute_batches ::
  "provider_params \<Rightarrow> multicall \<Rightarrow> nat \<Rightarrow> call_state \<Rightarrow> call_state" where
  "execute_batches p mc attemptNumber cs =
     cs\<lparr>quoteStates :=
          map (\<lambda>(idx, quoteState).
                 run_batch p mc attemptNumber cs (length (quoteStates cs)) idx quoteState)
              (enumerate 0 (quoteStates cs)),
        totalCallsMade :=
          totalCallsMade cs + length (filter (\<lambda>q. \<not> is_success q) (quoteStates cs))\<rparr>"

subsection \<open>partitionQuotes\<close>

fun successes :: "QuoteBatchState list \<Rightarrow> (encoded_input list \<times> multicall_results) list" where
  "successes [] = []"
| "successes (Success ins res # qs) = (ins, res) # successes qs"
| "successes (_ # qs) = successes qs"

fun failures :: "QuoteBatchState list
    \<Rightarrow> (encoded_input list \<times> error_reason \<times> multicall_results option) list" where
  "failures [] = []"
| "failures (Failed ins err res # qs) = (ins, err, res) # failures qs"
| "failures (_ # qs) = failures qs"

fun pendings :: "QuoteBatchState list \<Rightarrow> encoded_input list list" where
  "pendings [] = []"
| "pendings (Pending ins # qs) = ins # pendings qs"
| "pendings (_ # qs) = pendings qs"

definition partitionQuotes :: "QuoteBatchState list
    \<Rightarrow> (encoded_input list \<times> multicall_results) list
      \<times> (encoded_input list \<times> error_reason \<times> multicall_results option) list
      \<times> encoded_input list list" where
  "partitionQuotes qs = (successes qs, failures qs, pendings qs)"

subsection \<open>Retry controller\<close>

definition putMetric :: "string \<Rightarrow> call_state \<Rightarrow> call_state" where
  "putMetric name cs = cs\<lparr>metrics := metrics cs @ [name]\<rparr>"

text \<open>
  The body of the loop over the failed batches, one branch per error class in the order of
  the \<^verbatim>\<open>instanceof\<close> chain. The tests \<^verbatim>\<open>blockHeaderRetryAttemptNumber && ...\<close> and
  \<^verbatim>\<open>providerConfig.blockNumber ? ... : ...\<close> are truthiness tests: an undefined or zero
  number fails them. \<open>getBlockNumber\<close> is the provider's current block.
\<close>

definition handle_failure ::
  "provider_params \<Rightarrow> (nat \<Rightarrow> int) \<Rightarrow> nat \<Rightarrow> error_reason \<Rightarrow> call_state \<Rightarrow> call_state" where
  "handle_failure p getBlockNumber attemptNumber err cs =
     (case err of
        BlockConflictError _ _ _ \<Rightarrow>
          (let cs1 = (if \<not> haveRetriedForBlockConflictError cs
                      then (putMetric ''QuoteBlockConflictErrorRetry'' cs)
                             \<lparr>haveRetriedForBlockConflictError := True\<rparr>
                      else cs)
           in cs1\<lparr>retryAll := True\<rparr>)
      | ProviderBlockHeaderError _ \<Rightarrow>
          (let cs1 = (if \<not> haveRetriedForBlockHeader cs
                      then (putMetric ''QuoteBlockHeaderNotFoundRetry'' cs)
                             \<lparr>haveRetriedForBlockHeader := True\<rparr>
                      else cs);
               cs2 = (if (case blockHeaderRetryAttemptNumber cs1 of
                            None \<Rightarrow> False
                          | Some k \<Rightarrow> k \<noteq> 0 \<and> k < attemptNumber)
                         \<and> \<not> blockHeaderRolledBack cs1 \<and> rollback p
                      then cs1\<lparr>providerConfig_blockNumber :=
                                  (if providerConfig_blockNumber cs1 \<noteq> 0
                                   then providerConfig_blockNumber cs1 - 1
                                   else getBlockNumber attemptNumber - 1),
                               retryAll := True,
                               blockHeaderRolledBack := True\<rparr>
                      else cs1)
           in cs2\<lparr>blockHeaderRetryAttemptNumber := Some attemptNumber\<rparr>)
      | ProviderTimeoutError _ \<Rightarrow>
          (if \<not> haveRetriedForTimeout cs
           then (putMetric ''QuoteTimeoutRetry'' cs)\<lparr>haveRetriedForTimeout := True\<rparr>
           else cs)
      | ProviderGasError _ \<Rightarrow>
          (let cs1 = (if \<not> haveRetriedForOutOfGas cs
                      then (putMetric ''QuoteOutOfGasExceptionRetry'' cs)
                             \<lparr>haveRetriedForOutOfGas := True\<rparr>
                      else cs)
           in cs1\<lparr>gasLimitOverride := 1000000, multicallChunk := 140\<rparr>)
      | SuccessRateError _ _ \<Rightarrow>
          (if \<not> haveRetriedForSuccessRate cs
           then (putMetric ''QuoteSuccessRateRetry'' cs)
                  \<lparr>haveRetriedForSuccessRate := True,
                   gasLimitOverride := override_gasLimitOverride p,
                   multicallChunk := override_multicallChunk p,
                   retryAll := True\<rparr>
           else cs)
      | UnknownError _ \<Rightarrow>
          (if \<not> haveRetriedForUnknownReason cs
           then (putMetric ''QuoteUnknownReasonRetry'' cs)\<lparr>haveRetriedForUnknownReason := True\<rparr>
           else cs))"

text \<open>The failures are inspected in batch order.\<close>

definition handle_failures ::
  "provider_params \<Rightarrow> (nat \<Rightarrow> int) \<Rightarrow> nat \<Rightarrow> error_reason list \<Rightarrow> call_state \<Rightarrow> call_state" where
  "handle_failures p getBlockNumber attemptNumber errs cs =
     fold (handle_failure p getBlockNumber attemptNumber) errs cs"

text \<open>The global reset: with \<open>retryAll\<close> set, the inputs are chunked again with the current
  \<open>multicallChunk\<close> and every batch is pending.\<close>

definition reset_if_retryAll :: "encoded_input list \<Rightarrow> call_state \<Rightarrow> call_state" where
  "reset_if_retryAll ins cs =
     (if retryAll cs then cs\<lparr>quoteStates := pending_states ins (multicallChunk cs)\<rparr> else cs)"

fun join_names :: "string list \<Rightarrow> string" where
  "join_names [] = []"
| "join_names [x] = x"
| "join_names (x # y # ys) = x @ '', '' @ join_names (y # ys)"

subsection \<open>One attempt and the retry loop\<close>

text \<open>
  What the function given to \<^verbatim>\<open>retry\<close> throws: the pending-after-join error, the
  error naming the failed batches, and the \<^verbatim>\<open>TypeError\<close> of reading
  \<^verbatim>\<open>callResults[0]!.blockNumber\<close> when there is no successful batch at all
  (\<^verbatim>\<open>callResults[0]\<close> is then \<^verbatim>\<open>undefined\<close>).
\<close>

datatype call_error =
    PendingQuoteError
  | FailedQuotesError nat string
  | UndefinedBlockNumberTypeError

text \<open>
  The body of the retried function. It returns the flat results of the successful batches
  in batch order and the block number of the first one (the percentile of the gas figures,
  also returned by the source, only feeds a metric). \<open>totalCalls\<close> is the length of the
  first chunking, which the conflict message reports.
\<close>

definition attempt ::
  "provider_params \<Rightarrow> multicall \<Rightarrow> (nat \<Rightarrow> int) \<Rightarrow> encoded_input list \<Rightarrow> nat \<Rightarrow> nat
    \<Rightarrow> call_state \<Rightarrow> (call_error + raw_result list \<times> int) \<times> call_state" where
  "attempt p mc getBlockNumber ins totalCalls attemptNumber cs =
     (let cs1 = execute_batches p mc attemptNumber cs;
          (successfulQuoteStates, failedQuoteStates, pendingQuoteStates) =
             partitionQuotes (quoteStates cs1)
      in if length pendingQuoteStates > 0 then (Inl PendingQuoteError, cs1)
         else
           let blockNumberError =
                 validateBlockNumbers successfulQuoteStates totalCalls (gasLimitOverride cs1);
               cs2 = cs1\<lparr>retryAll := (blockNumberError \<noteq> None)\<rparr>;
               reasonForFailureStr = join_names (map (\<lambda>f. reason_name (fst (snd f))) failedQuoteStates);
               cs3 = handle_failures p getBlockNumber attemptNumber
                       (map (\<lambda>f. fst (snd f)) failedQuoteStates) cs2;
               cs4 = reset_if_retryAll ins cs3
           in if length failedQuoteStates > 0
              then (Inl (FailedQuotesError (length failedQuoteStates) reasonForFailureStr), cs4)
              else
                (case map snd successfulQuoteStates of
                   [] \<Rightarrow> (Inl UndefinedBlockNumberTypeError, cs4)
                 | first # rest \<Rightarrow>
                     (Inr (concat (map results (first # rest)), blockNumber first), cs4)))"

text \<open>
  \<^verbatim>\<open>async-retry\<close>: the function is called with attempt numbers 1, 2, ...; when it
  throws and retries are left it is called again, otherwise the last error is the result.
  With \<open>retries = n\<close> there are at most \<open>n + 1\<close> attempts.
\<close>

fun retry ::
  "(nat \<Rightarrow> call_state \<Rightarrow> (call_error + 'x) \<times> call_state) \<Rightarrow> nat \<Rightarrow> nat \<Rightarrow> call_state
    \<Rightarrow> (call_error + 'x) \<times> call_state" where
  "retry f 0 attemptNumber cs = f attemptNumber cs"
| "retry f (Suc retriesLeft) attemptNumber cs =
     (case f attemptNumber cs of
        (Inl err, cs') \<Rightarrow> retry f retriesLeft (Suc attemptNumber) cs'
      | (Inr r, cs') \<Rightarrow> (Inr r, cs'))"

subsection \<open>Result assembler\<close>

text \<open>\<^verbatim>\<open>array[i]\<close> in JavaScript: \<^verbatim>\<open>undefined\<close> (here \<open>None\<close>) out of range.\<close>

definition js_index :: "'a list \<Rightarrow> nat \<Rightarrow> 'a option" where
  "js_index xs i = (if i < length xs then Some (xs ! i) else None)"

definition to_quote :: "'a \<Rightarrow> raw_result \<Rightarrow> 'a V3AmountQuote" where
  "to_quote amt quoteResult =
     (case quoteResult of
        ResultErr _ \<Rightarrow>
          \<lparr>amount = amt, quote = None, sqrtPriceX96AfterList = None,
           initializedTicksCrossedList = None, gasEstimate = None\<rparr>
      | ResultOk (q, sqrtPrices, ticks, gas) \<Rightarrow>
          \<lparr>amount = amt, quote = Some q, sqrtPriceX96AfterList = Some sqrtPrices,
           initializedTicksCrossedList = Some ticks, gasEstimate = Some gas\<rparr>)"

text \<open>
  The flat results are cut into slices of \<^verbatim>\<open>amounts.length\<close>; slice \<open>i\<close> belongs to
  \<^verbatim>\<open>routes[i]\<close> and its element \<open>index\<close> to \<^verbatim>\<open>amounts[index]\<close>. A slice is never
  longer than \<open>amounts\<close>, so the amount index is always in range; the route index is not
  when there are more slices than routes, and the pair then holds an undefined route.
\<close>

definition processQuoteResults ::
  "raw_result list \<Rightarrow> 'r list \<Rightarrow> 'a list \<Rightarrow> ('r option \<times> 'a V3AmountQuote list) list" where
  "processQuoteResults quoteResults routes amounts =
     map (\<lambda>(i, slice).
            (js_index routes i,
             map (\<lambda>(index, quoteResult). to_quote (amounts ! index) quoteResult)
                 (enumerate 0 slice)))
         (enumerate 0 (chunk quoteResults (length amounts)))"

subsection \<open>getQuotesManyData\<close>

definition initial_state :: "provider_params \<Rightarrow> encoded_input list \<Rightarrow> int \<Rightarrow> call_state" where
  "initial_state p ins bn =
     \<lparr>quoteStates = pending_states ins (batch_multicallChunk p),
      multicallChunk = batch_multicallChunk p,
      gasLimitOverride = batch_gasLimitPerCall p,
      providerConfig_blockNumber = bn,
      retryAll = False,
      haveRetriedForSuccessRate = False,
      haveRetriedForBlockHeader = False,
      blockHeaderRetryAttemptNumber = None,
      blockHeaderRolledBack = False,
      haveRetriedForBlockConflictError = False,
      haveRetriedForOutOfGas = False,
      haveRetriedForTimeout = False,
      haveRetriedForUnknownReason = False,
      totalCallsMade = 0,
      metrics = []\<rparr>"

text \<open>
  The whole call. \<open>configBlockNumber\<close> is the caller's pinned block, if any
  (\<^verbatim>\<open>_providerConfig?.blockNumber ?? await this.provider.getBlockNumber()\<close>). The final
  state is returned beside the result, so that the calls made and the metrics emitted can
  be observed.
\<close>

definition getQuotesManyData ::
  "provider_params \<Rightarrow> ('r \<Rightarrow> bool \<Rightarrow> string) \<Rightarrow> ('a \<Rightarrow> string) \<Rightarrow> multicall \<Rightarrow> (nat \<Rightarrow> int)
    \<Rightarrow> 'a list \<Rightarrow> 'r list \<Rightarrow> function_name \<Rightarrow> int option
    \<Rightarrow> (call_error + ('r option \<times> 'a V3AmountQuote list) list \<times> int) \<times> call_state" where
  "getQuotesManyData p encodeRouteToPath amountHex mc getBlockNumber amounts routes
       functionName configBlockNumber =
     (let bn = (case configBlockNumber of Some b \<Rightarrow> b | None \<Rightarrow> getBlockNumber 0);
          ins = plan_inputs encodeRouteToPath amountHex functionName routes amounts;
          cs0 = initial_state p ins bn;
          (r, cs) = retry (attempt p mc getBlockNumber ins (length (quoteStates cs0)))
                      (retries p) 1 cs0
      in (case r of
            Inl err \<Rightarrow> Inl err
          | Inr (quoteResults, bnum) \<Rightarrow>
              Inr (processQuoteResults quoteResults routes amounts, bnum),
          cs))"

definition getQuotesManyExactIn where
  "getQuotesManyExactIn p encodeRouteToPath amountHex mc getBlockNumber amountIns routes
       configBlockNumber =
     getQuotesManyData p encodeRouteToPath amountHex mc getBlockNumber amountIns routes
       QuoteExactInput configBlockNumber"

definition getQuotesManyExactOut where
  "getQuotesManyExactOut p encodeRouteToPath amountHex mc getBlockNumber amountOuts routes
       configBlockNumber =
     getQuotesManyData p encodeRouteToPath amountHex mc getBlockNumber amountOuts routes
       QuoteExactOutput configBlockNumber"

subsection \<open>Definitions used by the statements\<close>

text \<open>The chunk size as the specification words it: \<open>num_chunks = \<lceil>N / multicall_chunk\<rceil>\<close>
  and \<open>normalized = \<lceil>N / num_chunks\<rceil>\<close>.\<close>

definition spec_normalized :: "nat \<Rightarrow> nat \<Rightarrow> nat" where
  "spec_normalized N c =
     (let num_chunks = \<lceil>(of_nat N :: rat) / of_nat c\<rceil>
      in nat \<lceil>(of_nat N :: rat) / of_int num_chunks\<rceil>)"

text \<open>The difference between the largest and the smallest chunk size.\<close>

definition size_gap :: "'a list list \<Rightarrow> nat" where
  "size_gap chunks = Max (set (map length chunks)) - Min (set (map length chunks))"

text \<open>Example inputs.\<close>

definition inputs5 :: "encoded_input list" where
  "inputs5 = [(''p'', ''0x1''), (''p'', ''0x2''), (''p'', ''0x3''), (''p'', ''0x4''), (''p'', ''0x5'')]"

definition inputs7 :: "encoded_input list" where
  "inputs7 = [(''p'', ''0x1''), (''p'', ''0x2''), (''p'', ''0x3''), (''p'', ''0x4''),
     (''p'', ''0x5''), (''p'', ''0x6''), (''p'', ''0x7'')]"


text \<open>The default constructor arguments of the provider.\<close>

definition default_params :: provider_params where
  "default_params =
     \<lparr>retries = 2, batch_multicallChunk = 150, batch_gasLimitPerCall = 1000000,
      quoteMinSuccessRate = Fin (1 / 5), override_gasLimitOverride = 1300000,
      override_multicallChunk = 110, rollback = False\<rparr>"

text \<open>Error classes as predicates.\<close>

fun is_block_conflict :: "error_reason \<Rightarrow> bool" where
  "is_block_conflict (BlockConflictError _ _ _) = True"
| "is_block_conflict _ = False"

fun is_success_rate :: "error_reason \<Rightarrow> bool" where
  "is_success_rate (SuccessRateError _ _) = True"
| "is_success_rate _ = False"

fun is_block_header :: "error_reason \<Rightarrow> bool" where
  "is_block_header (ProviderBlockHeaderError _) = True"
| "is_block_header _ = False"

fun is_out_of_gas :: "error_reason \<Rightarrow> bool" where
  "is_out_of_gas (ProviderGasError _) = True"
| "is_out_of_gas _ = False"

text \<open>The reasons of the failed batches of a batch vector, in batch order.\<close>

definition failure_reasons :: "QuoteBatchState list \<Rightarrow> error_reason list" where
  "failure_reasons qs = map (\<lambda>f. fst (snd f)) (failures qs)"

text \<open>The state an attempt leaves behind and the value it returns or throws, when no batch
  is pending after the join (which is always the case, see \<open>pendings_execute_batches\<close>).\<close>

definition attempt_state ::
  "provider_params \<Rightarrow> multicall \<Rightarrow> (nat \<Rightarrow> int) \<Rightarrow> encoded_input list \<Rightarrow> nat \<Rightarrow> nat
    \<Rightarrow> call_state \<Rightarrow> call_state" where
  "attempt_state p mc getBlockNumber ins totalCalls attemptNumber cs =
     (let cs1 = execute_batches p mc attemptNumber cs
      in reset_if_retryAll ins
           (handle_failures p getBlockNumber attemptNumber (failure_reasons (quoteStates cs1))
              (cs1\<lparr>retryAll :=
                     (validateBlockNumbers (successes (quoteStates cs1)) totalCalls
                        (gasLimitOverride cs1) \<noteq> None)\<rparr>)))"

definition attempt_outcome :: "QuoteBatchState list \<Rightarrow> call_error + raw_result list \<times> int" where
  "attempt_outcome qs =
     (if length (failures qs) > 0
      then Inl (FailedQuotesError (length (failures qs))
                  (join_names (map (\<lambda>f. reason_name (fst (snd f))) (failures qs))))
      else (case map snd (successes qs) of
              [] \<Rightarrow> Inl UndefinedBlockNumberTypeError
            | first # rest \<Rightarrow> Inr (concat (map results (first # rest)), blockNumber first)))"

text \<open>An aggregator whose every quote fails: each batch has success rate 0.\<close>

definition low_rate_multicall :: multicall where
  "low_rate_multicall n idx ins bn gl =
     Inr \<lparr>blockNumber = bn, results = map (\<lambda>_. ResultErr ''0x'') ins,
          approxGasUsedPerSuccessCall = 0\<rparr>"

text \<open>
  The pinned block between two states of one call: it is unchanged, or it was rolled back
  in between, which requires that no rollback had happened before and marks the rollback
  as done; a rollback of a non-zero block number is a decrement by one.
\<close>

definition rolled_back_at_most_once :: "call_state \<Rightarrow> call_state \<Rightarrow> bool" where
  "rolled_back_at_most_once cs cs' =
     ((blockHeaderRolledBack cs \<longrightarrow> blockHeaderRolledBack cs')
      \<and> (providerConfig_blockNumber cs' = providerConfig_blockNumber cs
          \<or> (\<not> blockHeaderRolledBack cs \<and> blockHeaderRolledBack cs'
              \<and> (providerConfig_blockNumber cs \<noteq> 0
                   \<longrightarrow> providerConfig_blockNumber cs' = providerConfig_blockNumber cs - 1))))"

text \<open>A provider with rollback enabled, and an aggregator that never finds the block header.\<close>

definition rollback_params :: provider_params where
  "rollback_params = default_params\<lparr>rollback := True\<rparr>"

definition header_missing_multicall :: multicall where
  "header_missing_multicall n idx ins bn gl = Inl ''header not found''"

text \<open>One encoded input, and the state a call on it is in when its first attempt has met a
  missing block header (the block pinned at \<open>b\<close>, the provider's current block \<open>cur\<close>).\<close>

definition example_input :: encoded_input where
  "example_input = (''p'', ''0x1'')"

definition after_first_header_failure :: "int \<Rightarrow> int \<Rightarrow> call_state" where
  "after_first_header_failure b cur =
     snd (attempt rollback_params header_missing_multicall (\<lambda>_. cur) [example_input] 1 1
            (initial_state rollback_params [example_input] b))"

text \<open>A batch recorded as failed with a block conflict, and the state of a call that has
  never retried for one.\<close>

definition failed_with_conflict :: "QuoteBatchState \<Rightarrow> bool" where
  "failed_with_conflict q = (case q of Failed _ e _ \<Rightarrow> is_block_conflict e | _ \<Rightarrow> False)"

definition no_conflict_retry :: "call_state \<Rightarrow> bool" where
  "no_conflict_retry cs =
     (\<not> haveRetriedForBlockConflictError cs
      \<and> ''QuoteBlockConflictErrorRetry'' \<notin> set (metrics cs)
      \<and> list_all (\<lambda>q. \<not> failed_with_conflict q) (quoteStates cs))"

text \<open>
  Three inputs sent one per batch; an aggregator whose first two batches succeed at blocks
  100 and 101 and whose other batches run out of gas; and the quoter's reply used in the
  examples.
\<close>

definition inputs3 :: "encoded_input list" where
  "inputs3 = [(''p'', ''0x1''), (''p'', ''0x2''), (''p'', ''0x3'')]"

definition chunk_one_params :: provider_params where
  "chunk_one_params = default_params\<lparr>batch_multicallChunk := 1\<rparr>"

definition quote_ok :: raw_result where
  "quote_ok = ResultOk (7, [1], [0], 21000)"

definition conflict_and_gas_multicall :: multicall where
  "conflict_and_gas_multicall n idx ins bn gl =
     (if idx = 0 then Inr \<lparr>blockNumber = 100, results = map (\<lambda>_. quote_ok) ins,
                            approxGasUsedPerSuccessCall = 21000\<rparr>
      else if idx = 1 then Inr \<lparr>blockNumber = 101, results = map (\<lambda>_. quote_ok) ins,
                            approxGasUsedPerSuccessCall = 21000\<rparr>
      else Inl ''out of gas'')"

text \<open>An aggregator whose first batch succeeds at block 100 and whose other batches run out
  of gas.\<close>

definition gas_multicall :: multicall where
  "gas_multicall n idx ins bn gl =
     (if idx = 0 then Inr \<lparr>blockNumber = 100, results = map (\<lambda>_. quote_ok) ins,
                            approxGasUsedPerSuccessCall = 21000\<rparr>
      else Inl ''out of gas'')"

text \<open>
  A successful batch is aligned when it holds one result per input. A batch vector covers
  the inputs \<open>ins\<close> when it is empty or its chunks, in order, make up \<open>ins\<close>, no chunk is
  empty and every successful batch is aligned.
\<close>

fun aligned_batch :: "QuoteBatchState \<Rightarrow> bool" where
  "aligned_batch (Success ins res) = (length (results res) = length ins)"
| "aligned_batch _ = True"

definition covers :: "encoded_input list \<Rightarrow> call_state \<Rightarrow> bool" where
  "covers ins cs =
     ((quoteStates cs = [] \<or> concat (map inputs (quoteStates cs)) = ins)
      \<and> list_all (\<lambda>q. inputs q \<noteq> []) (quoteStates cs)
      \<and> list_all aligned_batch (quoteStates cs))"

text \<open>What the retry loop of a call returns (the flat results and the block number) or
  throws, before the results are assembled.\<close>

definition retry_result ::
  "provider_params \<Rightarrow> ('r \<Rightarrow> bool \<Rightarrow> string) \<Rightarrow> ('a \<Rightarrow> string) \<Rightarrow> multicall \<Rightarrow> (nat \<Rightarrow> int)
    \<Rightarrow> 'a list \<Rightarrow> 'r list \<Rightarrow> function_name \<Rightarrow> int option
    \<Rightarrow> call_error + raw_result list \<times> int" where
  "retry_result p enc hex mc g amounts routes fn cfg =
     fst (retry (attempt p mc g (plan_inputs enc hex fn routes amounts)
                   (length (quoteStates (initial_state p (plan_inputs enc hex fn routes amounts)
                      (case cfg of Some b \<Rightarrow> b | None \<Rightarrow> g 0)))))
            (retries p) 1
            (initial_state p (plan_inputs enc hex fn routes amounts)
               (case cfg of Some b \<Rightarrow> b | None \<Rightarrow> g 0)))"

text \<open>
  Two routes and two amounts, with an encoder and a hex form that are the identity on
  strings, and an aggregator that answers every batch at block 100 with a successful quote
  for every input but the last amount of the last route.
\<close>

definition example_routes :: "string list" where
  "example_routes = [''r0'', ''r1'']"

definition example_amounts :: "string list" where
  "example_amounts = [''0xa'', ''0x14'']"

definition happy_multicall :: multicall where
  "happy_multicall n idx ins bn gl =
     Inr \<lparr>blockNumber = 100,
          results = map (\<lambda>i. if i = (''r1'', ''0x14'') then ResultErr ''0x'' else quote_ok) ins,
          approxGasUsedPerSuccessCall = 21000\<rparr>"

definition quote_record :: "string \<Rightarrow> string V3AmountQuote" where
  "quote_record amt =
     \<lparr>amount = amt, quote = Some 7, sqrtPriceX96AfterList = Some [1],
      initializedTicksCrossedList = Some [0], gasEstimate = Some 21000\<rparr>"

definition null_record :: "string \<Rightarrow> string V3AmountQuote" where
  "null_record amt =
     \<lparr>amount = amt, quote = None, sqrtPriceX96AfterList = None,
      initializedTicksCrossedList = None, gasEstimate = None\<rparr>"

text \<open>An aggregator whose batch 0 answers at block 100 and whose other batches answer at
  block 101, every quote successful.\<close>

definition two_block_multicall :: multicall where
  "two_block_multicall n idx ins bn gl =
     Inr \<lparr>blockNumber = (if idx = 0 then 100 else 101), results = map (\<lambda>_. quote_ok) ins,
          approxGasUsedPerSuccessCall = 21000\<rparr>"

section \<open>Properties\<close>

subsection \<open>Chunking\<close>

lemma chunk_pos:
  "0 < n \<Longrightarrow> chunk (x # xs) n = (x # take (n - 1) xs) # chunk (drop (n - 1) xs) n"
  by (cases n) simp_all

lemma chunk_unfold:
  "xs \<noteq> [] \<Longrightarrow> 0 < n \<Longrightarrow> chunk xs n = take n xs # chunk (drop n xs) n"
  by (cases xs; cases n) simp_all

lemma chunk_zero [simp]: "chunk xs 0 = []"
  by (cases xs) simp_all

lemma concat_chunk: "0 < n \<Longrightarrow> concat (chunk xs n) = xs"
proof (induction xs n rule: chunk.induct)
  case (3 x xs n)
  have "concat (chunk (x # xs) (Suc n)) = (x # take n xs) @ concat (chunk (drop n xs) (Suc n))"
    by simp
  also have "\<dots> = (x # take n xs) @ drop n xs" using 3 by simp
  finally show ?case by simp
qed simp_all

lemma chunk_member: "ch \<in> set (chunk xs n) \<Longrightarrow> ch \<noteq> [] \<and> length ch \<le> n"
  by (induction xs n arbitrary: ch rule: chunk.induct) auto

lemma length_chunk: "0 < n \<Longrightarrow> length (chunk xs n) = (length xs + n - 1) div n"
proof (induction xs n rule: chunk.induct)
  case (3 x xs n)
  have ih: "length (chunk (drop n xs) (Suc n)) = (length xs - n + n) div Suc n"
    using 3 by simp
  have "(length xs - n + n) div Suc n = length xs div Suc n"
  proof (cases "n \<le> length xs")
    case True
    then show ?thesis by simp
  next
    case False
    then show ?thesis by simp
  qed
  moreover have "(length xs + Suc n) div Suc n = Suc (length xs div Suc n)"
    using div_add_self2 [of "Suc n" "length xs"] by simp
  ultimately show ?case using ih by simp
qed simp_all

lemma chunk_nth:
  "i < length (chunk xs n) \<Longrightarrow> chunk xs n ! i = take n (drop (i * n) xs)"
proof (induction xs n arbitrary: i rule: chunk.induct)
  case (3 x xs n)
  show ?case
  proof (cases i)
    case 0
    then show ?thesis by simp
  next
    case (Suc j)
    with 3 have "chunk (drop n xs) (Suc n) ! j = take (Suc n) (drop (j * Suc n) (drop n xs))"
      by simp
    then show ?thesis using Suc by (simp add: algebra_simps)
  qed
qed simp_all

lemma chunk_full_before_last:
  assumes "Suc i < length (chunk xs n)"
  shows "length (chunk xs n ! i) = n"
proof -
  have n: "0 < n" using assms by (cases n) auto
  have "Suc i < (length xs + n - 1) div n" using assms n by (simp add: length_chunk)
  then have "Suc (Suc i) * n \<le> ((length xs + n - 1) div n) * n"
    by (intro mult_le_mono1) simp
  also have "\<dots> \<le> length xs + n - 1" by simp
  finally have "i * n + n + n \<le> length xs + n - 1" by simp
  then have "i * n + n \<le> length xs" using n by linarith
  moreover have "chunk xs n ! i = take n (drop (i * n) xs)"
    using assms by (simp add: chunk_nth)
  ultimately show ?thesis by simp
qed

lemma ceiling_nat_div:
  assumes "0 < b"
  shows "\<lceil>(of_nat a :: rat) / of_nat b\<rceil> = int ((a + b - 1) div b)"
proof (rule ceiling_unique)
  let ?q = "(a + b - 1) div b"
  have m: "(a + b - 1) mod b < b" using assms by simp
  have e: "?q * b + (a + b - 1) mod b = a + b - 1" by simp
  have 1: "a \<le> ?q * b" using m e assms by linarith
  have 2: "?q * b < a + b" using e assms by linarith
  have bpos: "(0::rat) < of_nat b" using assms by simp
  have "(of_nat (?q * b) :: rat) < of_nat (a + b)" using 2 by (simp only: of_nat_less_iff)
  then have "(of_nat ?q - 1) * (of_nat b :: rat) < of_nat a"
    by (simp add: algebra_simps)
  then show "of_int (int ?q) - 1 < (of_nat a :: rat) / of_nat b"
    using bpos by (simp add: pos_less_divide_eq)
  have "(of_nat a :: rat) \<le> of_nat (?q * b)" using 1 by (simp only: of_nat_le_iff)
  then show "(of_nat a :: rat) / of_nat b \<le> of_int (int ?q)"
    using bpos by (simp add: pos_divide_le_eq)
qed

lemma spec_normalized_nat:
  assumes "0 < N" "0 < c"
  shows "spec_normalized N c = (N + (N + c - 1) div c - 1) div ((N + c - 1) div c)"
proof -
  let ?k = "(N + c - 1) div c"
  have k: "\<lceil>(of_nat N :: rat) / of_nat c\<rceil> = int ?k" using assms(2) by (rule ceiling_nat_div)
  have "N \<le> ?k * c"
  proof -
    have "(N + c - 1) mod c < c" using assms by simp
    moreover have "?k * c + (N + c - 1) mod c = N + c - 1" by simp
    ultimately show ?thesis using assms by linarith
  qed
  then have kpos: "0 < ?k" using assms by (cases "?k") auto
  have "\<lceil>(of_nat N :: rat) / of_nat ?k\<rceil> = int ((N + ?k - 1) div ?k)"
    using kpos by (rule ceiling_nat_div)
  then show ?thesis by (simp add: spec_normalized_def k Let_def)
qed

lemma ceiling_quotient_pos:
  assumes "0 < N" "0 < c"
  shows "0 < \<lceil>(of_nat N :: rat) / of_nat c\<rceil>"
proof -
  have "(of_nat N :: rat) / of_nat c > 0" using assms by simp
  then show ?thesis by (simp add: less_ceiling_iff)
qed

lemma spec_normalized_bounds:
  assumes "0 < N" "0 < c"
  shows "1 \<le> spec_normalized N c \<and> spec_normalized N c \<le> c"
proof -
  define k where "k = \<lceil>(of_nat N :: rat) / of_nat c\<rceil>"
  define m where "m = \<lceil>(of_nat N :: rat) / of_int k\<rceil>"
  have kpos: "0 < k" unfolding k_def using assms by (rule ceiling_quotient_pos)
  have "(of_nat N :: rat) / of_nat c \<le> of_int k" unfolding k_def by (rule le_of_int_ceiling)
  then have "(of_nat N :: rat) \<le> of_int k * of_nat c"
    using assms by (simp add: pos_divide_le_eq)
  then have "(of_nat N :: rat) / of_int k \<le> of_nat c"
    using kpos by (simp add: pos_divide_le_eq mult.commute)
  then have up: "m \<le> int c"
    unfolding m_def by (simp add: ceiling_le_iff)
  have "(of_nat N :: rat) / of_int k > 0" using assms kpos by simp
  then have lo: "0 < m" unfolding m_def by (simp add: less_ceiling_iff)
  have "spec_normalized N c = nat m"
    by (simp add: spec_normalized_def k_def m_def Let_def)
  then show ?thesis using up lo by linarith
qed

lemma normalizedChunk_pos:
  assumes "0 < N" "0 < c"
  shows "normalizedChunk N c = Fin (of_nat (spec_normalized N c))"
    and "js_toSize (normalizedChunk N c) = spec_normalized N c"
proof -
  define k where "k = \<lceil>(of_nat N :: rat) / of_nat c\<rceil>"
  define m where "m = \<lceil>(of_nat N :: rat) / of_int k\<rceil>"
  have kpos: "0 < k" unfolding k_def using assms by (rule ceiling_quotient_pos)
  then have kne: "(of_int k :: rat) \<noteq> 0" by simp
  have cne: "(of_nat c :: rat) \<noteq> 0" using assms by simp
  have "(of_nat N :: rat) / of_int k > 0" using assms kpos by simp
  then have pos: "0 < m" unfolding m_def by (simp add: less_ceiling_iff)
  have "js_ceil (js_div (js_of_nat N) (js_of_nat c)) = Fin (of_int k)"
    using cne by (simp add: js_of_nat_def k_def)
  then have nc: "normalizedChunk N c = Fin (of_int m)"
    using kne by (simp add: normalizedChunk_def js_of_nat_def m_def)
  have sn: "spec_normalized N c = nat m"
    by (simp add: spec_normalized_def k_def m_def Let_def)
  show "normalizedChunk N c = Fin (of_nat (spec_normalized N c))"
    using pos by (simp add: nc sn)
  show "js_toSize (normalizedChunk N c) = spec_normalized N c"
    by (simp add: nc sn)
qed

lemma inputsChunked_pos:
  "ins \<noteq> [] \<Longrightarrow> 0 < c \<Longrightarrow> inputsChunked ins c = chunk ins (spec_normalized (length ins) c)"
  by (simp add: inputsChunked_def normalizedChunk_pos)

text \<open>
  Claim C2, amended. For a non-empty input list and a positive \<open>multicallChunk\<close> the planner
  cuts the inputs into contiguous chunks of size
  \<open>normalized = \<lceil>N / \<lceil>N / multicallChunk\<rceil>\<rceil>\<close>: chunk \<open>i\<close> is the slice of \<open>normalized\<close>
  elements starting at \<open>i * normalized\<close>, every chunk but the last has exactly \<open>normalized\<close>
  elements, and every chunk has at least one element, at most \<open>normalized\<close> and at most
  \<open>multicallChunk\<close> elements. (Nothing bounds the difference between the largest and the
  smallest chunk by one.)
\<close>

theorem C2_chunks_within_limit:
  assumes "ins \<noteq> []" and "0 < c"
  shows "normalizedChunk (length ins) c = Fin (of_nat (spec_normalized (length ins) c))
    \<and> inputsChunked ins c = chunk ins (spec_normalized (length ins) c)
    \<and> concat (inputsChunked ins c) = ins
    \<and> (\<forall>i < length (inputsChunked ins c).
          inputsChunked ins c ! i
            = take (spec_normalized (length ins) c) (drop (i * spec_normalized (length ins) c) ins))
    \<and> (\<forall>i. Suc i < length (inputsChunked ins c)
          \<longrightarrow> length (inputsChunked ins c ! i) = spec_normalized (length ins) c)
    \<and> (\<forall>ch \<in> set (inputsChunked ins c).
          1 \<le> length ch \<and> length ch \<le> spec_normalized (length ins) c \<and> length ch \<le> c)"
proof -
  let ?n = "spec_normalized (length ins) c"
  have N: "0 < length ins" using assms by simp
  have b: "1 \<le> ?n \<and> ?n \<le> c" using N assms(2) by (rule spec_normalized_bounds)
  have ic: "inputsChunked ins c = chunk ins ?n" using assms by (rule inputsChunked_pos)
  have m: "\<forall>ch \<in> set (chunk ins ?n). 1 \<le> length ch \<and> length ch \<le> ?n \<and> length ch \<le> c"
  proof
    fix ch assume "ch \<in> set (chunk ins ?n)"
    then have "ch \<noteq> [] \<and> length ch \<le> ?n" by (rule chunk_member)
    then show "1 \<le> length ch \<and> length ch \<le> ?n \<and> length ch \<le> c"
      using b by (cases ch) auto
  qed
  have n1: "\<forall>i < length (chunk ins ?n). chunk ins ?n ! i = take ?n (drop (i * ?n) ins)"
    by (simp add: chunk_nth)
  have n2: "\<forall>i. Suc i < length (chunk ins ?n) \<longrightarrow> length (chunk ins ?n ! i) = ?n"
    using chunk_full_before_last by blast
  have c: "concat (chunk ins ?n) = ins" using b by (simp add: concat_chunk)
  have f: "normalizedChunk (length ins) c = Fin (of_nat ?n)"
    using N assms(2) by (rule normalizedChunk_pos(1))
  show ?thesis
    unfolding ic by (intro conjI f refl c n1 n2 m)
qed

text \<open>The theorem applied to five inputs and a chunk limit of two.\<close>

theorem C2_chunks_within_limit_witness:
  "inputs5 \<noteq> [] \<and> (0::nat) < 2 \<and> concat (inputsChunked inputs5 2) = inputs5
   \<and> inputsChunked inputs5 2 = chunk inputs5 (spec_normalized (length inputs5) 2)"
proof -
  have h1: "inputs5 \<noteq> []" by (simp add: inputs5_def)
  have h2: "(0::nat) < 2" by simp
  from C2_chunks_within_limit [OF h1 h2]
  have a: "concat (inputsChunked inputs5 2) = inputs5"
    and b: "inputsChunked inputs5 2 = chunk inputs5 (spec_normalized (length inputs5) 2)"
    by blast+
  show ?thesis using h1 h2 a b by blast
qed

lemma inputsChunked_7_3:
  "inputsChunked inputs7 3 =
     [ [(''p'', ''0x1''), (''p'', ''0x2''), (''p'', ''0x3'')],
      [(''p'', ''0x4''), (''p'', ''0x5''), (''p'', ''0x6'')],
      [(''p'', ''0x7'')]]"
proof -
  have len: "length inputs7 = 7" by (simp add: inputs7_def)
  have "inputs7 \<noteq> []" by (simp add: inputs7_def)
  then have "inputsChunked inputs7 3 = chunk inputs7 (spec_normalized (length inputs7) 3)"
    by (simp add: inputsChunked_pos)
  also have "spec_normalized (length inputs7) 3 = 3"
    by (simp add: len spec_normalized_nat)
  finally show ?thesis by (simp add: inputs7_def chunk_pos)
qed

text \<open>
  Claim C2 as stated fails: seven inputs with \<open>multicallChunk = 3\<close> give
  \<open>normalized = \<lceil>7 / \<lceil>7 / 3\<rceil>\<rceil> = 3\<close> and the chunks have sizes 3, 3 and 1, so the largest
  and the smallest differ by two.
\<close>

theorem C2_gap_counterexample:
  "\<not> size_gap (inputsChunked inputs7 3) \<le> 1"
  by (simp add: size_gap_def inputsChunked_7_3)
subsection \<open>Validation and classification of one batch\<close>

lemma startsWith_iff: "startsWith s sub \<longleftrightarrow> (\<exists>t. s = sub @ t)"
  by (induction s sub rule: startsWith.induct) auto

lemma str_includes_iff: "str_includes s sub \<longleftrightarrow> (\<exists>pre post. s = pre @ sub @ post)"
proof (induction s)
  case Nil
  then show ?case by auto
next
  case (Cons x xs)
  show ?case
  proof
    assume "str_includes (x # xs) sub"
    then consider "startsWith (x # xs) sub" | "str_includes xs sub" by auto
    then show "\<exists>pre post. x # xs = pre @ sub @ post"
    proof cases
      case 1
      then obtain t where "x # xs = sub @ t" by (auto simp: startsWith_iff)
      then have "x # xs = [] @ sub @ t" by simp
      then show ?thesis by blast
    next
      case 2
      then obtain pre post where "xs = pre @ sub @ post" using Cons.IH by blast
      then have "x # xs = (x # pre) @ sub @ post" by simp
      then show ?thesis by blast
    qed
  next
    assume "\<exists>pre post. x # xs = pre @ sub @ post"
    then obtain pre post where e: "x # xs = pre @ sub @ post" by blast
    show "str_includes (x # xs) sub"
    proof (cases pre)
      case Nil
      with e have "startsWith (x # xs) sub" by (auto simp: startsWith_iff)
      then show ?thesis by simp
    next
      case (Cons y ys)
      with e have "xs = ys @ sub @ post" by simp
      then have "str_includes xs sub" using Cons.IH by blast
      then show ?thesis by simp
    qed
  qed
qed

lemma successRate_Nil: "successRate [] = NaN"
  by (simp add: successRate_def js_of_nat_def)

lemma js_lt_NaN: "\<not> js_lt NaN q"
  by simp

lemma validateSuccessRate_Some_iff:
  "(validateSuccessRate p rs retried = Some e) \<longleftrightarrow>
     (js_lt (successRate rs) (quoteMinSuccessRate p) \<and> \<not> retried
      \<and> e = SuccessRateError (quoteMinSuccessRate p) (successRate rs))"
  by (auto simp: validateSuccessRate_def)

lemma validateSuccessRate_None_iff:
  "(validateSuccessRate p rs retried = None) \<longleftrightarrow>
     (\<not> js_lt (successRate rs) (quoteMinSuccessRate p) \<or> retried)"
  by (auto simp: validateSuccessRate_def)

lemma run_batch_Inr:
  assumes "\<not> is_success q"
    and "mc n idx (inputs q) (providerConfig_blockNumber cs) (gasLimitOverride cs) = Inr res"
  shows "run_batch p mc n cs numStates idx q =
     (if js_lt (successRate (results res)) (quoteMinSuccessRate p) \<and> \<not> haveRetriedForSuccessRate cs
      then Failed (inputs q) (SuccessRateError (quoteMinSuccessRate p) (successRate (results res))) (Some res)
      else Success (inputs q) res)"
  using assms by (simp add: run_batch_def validateSuccessRate_def Let_def)

lemma run_batch_Inl:
  assumes "\<not> is_success q"
    and "mc n idx (inputs q) (providerConfig_blockNumber cs) (gasLimitOverride cs) = Inl msg"
  shows "run_batch p mc n cs numStates idx q =
           Failed (inputs q) (classify_error idx numStates (inputs q) msg) None"
  using assms by (simp add: run_batch_def Let_def)

lemma run_batch_success: "is_success q \<Longrightarrow> run_batch p mc n cs numStates idx q = q"
  by (simp add: run_batch_def)

text \<open>
  Claim C9. On an empty results array the success rate is 0 / 0, which is \<open>NaN\<close>; the
  comparison of \<open>NaN\<close> with the floor is false, so \<open>validateSuccessRate\<close> returns no error
  whatever the floor and the retry flag are, and a batch whose reply has no results becomes
  a success, never a success-rate failure.
\<close>

theorem C9_empty_results_no_error:
  "successRate [] = js_div (js_of_nat 0) (js_of_nat 0)
   \<and> successRate [] = NaN
   \<and> \<not> js_lt (successRate []) (quoteMinSuccessRate p)
   \<and> validateSuccessRate p [] haveRetried = None
   \<and> (\<not> is_success q
        \<and> mc n idx (inputs q) (providerConfig_blockNumber cs) (gasLimitOverride cs) = Inr res
        \<and> results res = []
        \<longrightarrow> run_batch p mc n cs numStates idx q = Success (inputs q) res)"
  by (simp add: validateSuccessRate_def successRate_Nil run_batch_def Let_def js_of_nat_def)

theorem C9_empty_results_no_error_witness:
  "run_batch default_params
     (\<lambda>n idx ins bn gl. Inr \<lparr>blockNumber = 7, results = [], approxGasUsedPerSuccessCall = 0\<rparr>)
     1 (initial_state default_params [] 7) 1 0 (Pending [])
   = Success [] \<lparr>blockNumber = 7, results = [], approxGasUsedPerSuccessCall = 0\<rparr>"
  using C9_empty_results_no_error [where q = "Pending []"
      and mc = "\<lambda>n idx ins bn gl. Inr \<lparr>blockNumber = 7, results = [], approxGasUsedPerSuccessCall = 0\<rparr>"
      and res = "\<lparr>blockNumber = 7, results = [], approxGasUsedPerSuccessCall = 0\<rparr>"
      and p = default_params and n = 1 and idx = 0
      and cs = "initial_state default_params [] 7" and numStates = 1]
  by simp

text \<open>
  Claim C6. When the aggregator call of a batch throws, the batch becomes \<open>Failed\<close> (with
  its inputs and without results) and the reason is chosen by testing the message in this
  order: \<^verbatim>\<open>header not found\<close> gives a \<open>ProviderBlockHeaderError\<close>, otherwise
  \<^verbatim>\<open>timeout\<close> gives a \<open>ProviderTimeoutError\<close>, otherwise \<^verbatim>\<open>out of gas\<close> gives a
  \<open>ProviderGasError\<close>, and anything else a plain error. The provider's message enters the
  reason cut to its first 500 characters (after a fixed prefix for the timeout and the
  unknown case).
\<close>

theorem C6_thrown_error_classified:
  assumes "\<not> is_success q"
    and "mc n idx (inputs q) (providerConfig_blockNumber cs) (gasLimitOverride cs) = Inl msg"
  shows "run_batch p mc n cs numStates idx q
           = Failed (inputs q) (classify_error idx numStates (inputs q) msg) None
     \<and> (str_includes msg ''header not found''
          \<longrightarrow> classify_error idx numStates (inputs q) msg
                = ProviderBlockHeaderError (take 500 msg))
     \<and> (\<not> str_includes msg ''header not found'' \<and> str_includes msg ''timeout''
          \<longrightarrow> classify_error idx numStates (inputs q) msg
                = ProviderTimeoutError (''Req '' @ show_nat idx @ ''/'' @ show_nat numStates
                    @ ''. Request had '' @ show_nat (length (inputs q)) @ '' inputs. ''
                    @ take 500 msg))
     \<and> (\<not> str_includes msg ''header not found'' \<and> \<not> str_includes msg ''timeout''
          \<and> str_includes msg ''out of gas''
          \<longrightarrow> classify_error idx numStates (inputs q) msg = ProviderGasError (take 500 msg))
     \<and> (\<not> str_includes msg ''header not found'' \<and> \<not> str_includes msg ''timeout''
          \<and> \<not> str_includes msg ''out of gas''
          \<longrightarrow> classify_error idx numStates (inputs q) msg
                = UnknownError (''Unknown error from provider: '' @ take 500 msg))
     \<and> length (take 500 msg) \<le> 500"
proof -
  have "run_batch p mc n cs numStates idx q =
          Failed (inputs q) (classify_error idx numStates (inputs q) msg) None"
    using assms by (rule run_batch_Inl)
  then show ?thesis
    by (simp add: classify_error_def slice500_def)
qed

text \<open>A message that contains both \<^verbatim>\<open>timeout\<close> and \<^verbatim>\<open>header not found\<close> is a
  block-header failure: the first test wins.\<close>

theorem C6_thrown_error_classified_witness:
  "run_batch default_params (\<lambda>n idx ins bn gl. Inl ''timeout: header not found'') 1
     (initial_state default_params [(''p'', ''0x1'')] 7) 1 0 (Pending [(''p'', ''0x1'')])
   = Failed [(''p'', ''0x1'')] (ProviderBlockHeaderError ''timeout: header not found'') None"
proof -
  have h1: "\<not> is_success (Pending [(''p'', ''0x1'')])" by simp
  have h2: "(\<lambda>n idx ins bn gl. Inl ''timeout: header not found'' :: string + multicall_results) 1 0
      (inputs (Pending [(''p'', ''0x1'')]))
      (providerConfig_blockNumber (initial_state default_params [(''p'', ''0x1'')] 7))
      (gasLimitOverride (initial_state default_params [(''p'', ''0x1'')] 7))
      = Inl ''timeout: header not found''" by simp
  have h3: "str_includes ''timeout: header not found'' ''header not found''" by simp
  show ?thesis
    using C6_thrown_error_classified [OF h1 h2, of default_params 1] h3 by simp
qed
subsection \<open>The batches of one attempt\<close>

lemma inputs_run_batch [simp]: "inputs (run_batch p mc n cs numStates idx q) = inputs q"
  by (cases q) (auto simp: run_batch_def Let_def split: sum.splits option.splits)

lemma not_pending_run_batch [simp]: "\<not> is_pending (run_batch p mc n cs numStates idx q)"
  by (cases q) (auto simp: run_batch_def Let_def split: sum.splits option.splits)

lemma classify_error_kind:
  "\<not> is_block_conflict (classify_error idx numStates ins msg)
   \<and> \<not> is_success_rate (classify_error idx numStates ins msg)"
  by (simp add: classify_error_def)

lemma run_batch_Failed:
  assumes "run_batch p mc n cs numStates idx q = Failed ins e r"
  shows "ins = inputs q \<and> \<not> is_block_conflict e
         \<and> (is_success_rate e \<longrightarrow> \<not> haveRetriedForSuccessRate cs)"
  using assms
  by (cases q)
     (auto simp: run_batch_def Let_def validateSuccessRate_def classify_error_def
           split: sum.splits option.splits if_splits)

lemma run_batch_Success:
  assumes "run_batch p mc n cs numStates idx q = Success ins res"
  shows "ins = inputs q
     \<and> (q = Success ins res
        \<or> mc n idx (inputs q) (providerConfig_blockNumber cs) (gasLimitOverride cs) = Inr res)"
  using assms
  by (cases q) (auto simp: run_batch_def Let_def split: sum.splits option.splits)

lemma quoteStates_execute_batches:
  "quoteStates (execute_batches p mc n cs) =
     map (\<lambda>(idx, q). run_batch p mc n cs (length (quoteStates cs)) idx q)
         (enumerate 0 (quoteStates cs))"
  by (simp add: execute_batches_def)

lemma length_execute_batches [simp]:
  "length (quoteStates (execute_batches p mc n cs)) = length (quoteStates cs)"
  by (simp add: quoteStates_execute_batches)

lemma nth_execute_batches:
  "i < length (quoteStates cs) \<Longrightarrow>
     quoteStates (execute_batches p mc n cs) ! i =
       run_batch p mc n cs (length (quoteStates cs)) i (quoteStates cs ! i)"
  by (simp add: quoteStates_execute_batches nth_enumerate_eq)

lemma in_execute_batches:
  assumes "x \<in> set (quoteStates (execute_batches p mc n cs))"
  shows "\<exists>idx q. q \<in> set (quoteStates cs)
           \<and> x = run_batch p mc n cs (length (quoteStates cs)) idx q"
proof -
  from assms obtain i where i: "i < length (quoteStates cs)"
    and x: "x = quoteStates (execute_batches p mc n cs) ! i"
    by (metis in_set_conv_nth length_execute_batches)
  have "quoteStates cs ! i \<in> set (quoteStates cs)" using i by simp
  then show ?thesis using x nth_execute_batches [OF i] by blast
qed

lemma map_inputs_execute_batches [simp]:
  "map inputs (quoteStates (execute_batches p mc n cs)) = map inputs (quoteStates cs)"
  by (rule nth_equalityI) (simp_all add: nth_execute_batches)

lemma execute_batches_fields [simp]:
  "multicallChunk (execute_batches p mc n cs) = multicallChunk cs"
  "gasLimitOverride (execute_batches p mc n cs) = gasLimitOverride cs"
  "providerConfig_blockNumber (execute_batches p mc n cs) = providerConfig_blockNumber cs"
  "retryAll (execute_batches p mc n cs) = retryAll cs"
  "haveRetriedForSuccessRate (execute_batches p mc n cs) = haveRetriedForSuccessRate cs"
  "haveRetriedForBlockHeader (execute_batches p mc n cs) = haveRetriedForBlockHeader cs"
  "blockHeaderRetryAttemptNumber (execute_batches p mc n cs) = blockHeaderRetryAttemptNumber cs"
  "blockHeaderRolledBack (execute_batches p mc n cs) = blockHeaderRolledBack cs"
  "haveRetriedForBlockConflictError (execute_batches p mc n cs)
     = haveRetriedForBlockConflictError cs"
  "metrics (execute_batches p mc n cs) = metrics cs"
  by (simp_all add: execute_batches_def)

lemma totalCallsMade_execute_batches:
  "totalCallsMade (execute_batches p mc n cs) =
     totalCallsMade cs + length (filter (\<lambda>q. \<not> is_success q) (quoteStates cs))"
  by (simp add: execute_batches_def)

subsection \<open>partitionQuotes\<close>

lemma pendings_empty_iff: "pendings qs = [] \<longleftrightarrow> (\<forall>q \<in> set qs. \<not> is_pending q)"
  by (induction qs rule: pendings.induct) auto

lemma in_failures_iff: "(ins, e, r) \<in> set (failures qs) \<longleftrightarrow> Failed ins e r \<in> set qs"
  by (induction qs rule: failures.induct) auto

lemma in_successes_iff: "(ins, res) \<in> set (successes qs) \<longleftrightarrow> Success ins res \<in> set qs"
  by (induction qs rule: successes.induct) auto

lemma in_failure_reasons_iff:
  "e \<in> set (failure_reasons qs) \<longleftrightarrow> (\<exists>ins r. Failed ins e r \<in> set qs)"
  by (induction qs rule: failures.induct) (auto simp: failure_reasons_def)

lemma failure_reasons_empty_iff: "failure_reasons qs = [] \<longleftrightarrow> failures qs = []"
  by (simp add: failure_reasons_def)

lemma failures_empty_iff: "failures qs = [] \<longleftrightarrow> (\<forall>q \<in> set qs. \<not> is_failed q)"
  by (induction qs rule: failures.induct) auto

lemma all_success_successes:
  "failures qs = [] \<Longrightarrow> pendings qs = [] \<Longrightarrow> map (\<lambda>(ins, res). Success ins res) (successes qs) = qs"
  by (induction qs rule: successes.induct) auto

lemma pendings_execute_batches [simp]: "pendings (quoteStates (execute_batches p mc n cs)) = []"
proof -
  have "\<forall>x \<in> set (quoteStates (execute_batches p mc n cs)). \<not> is_pending x"
    using in_execute_batches by fastforce
  then show ?thesis by (simp add: pendings_empty_iff)
qed

subsection \<open>The attempt in two parts\<close>

lemma attempt_eq:
  "attempt p mc getBlockNumber ins totalCalls n cs =
     (attempt_outcome (quoteStates (execute_batches p mc n cs)),
      attempt_state p mc getBlockNumber ins totalCalls n cs)"
  by (simp add: attempt_def attempt_state_def attempt_outcome_def partitionQuotes_def Let_def
        failure_reasons_def split: list.splits)


subsection \<open>The retry controller\<close>

lemma handle_failure_frame [simp]:
  "quoteStates (handle_failure p g n e cs) = quoteStates cs"
  "totalCallsMade (handle_failure p g n e cs) = totalCallsMade cs"
  by (cases e; simp add: handle_failure_def putMetric_def Let_def)+

lemma handle_failures_frame [simp]:
  "quoteStates (handle_failures p g n es cs) = quoteStates cs"
  "totalCallsMade (handle_failures p g n es cs) = totalCallsMade cs"
  by (induction es arbitrary: cs; simp add: handle_failures_def)+

lemma handle_failures_Nil [simp]: "handle_failures p g n [] cs = cs"
  by (simp add: handle_failures_def)

lemma handle_failures_Cons [simp]:
  "handle_failures p g n (e # es) cs = handle_failures p g n es (handle_failure p g n e cs)"
  by (simp add: handle_failures_def)

lemma retryAll_handle_failure: "retryAll cs \<Longrightarrow> retryAll (handle_failure p g n e cs)"
  by (cases e; simp add: handle_failure_def putMetric_def Let_def)

lemma retryAll_handle_failures: "retryAll cs \<Longrightarrow> retryAll (handle_failures p g n es cs)"
  by (induction es arbitrary: cs) (simp_all add: retryAll_handle_failure)

lemma reset_if_retryAll_fields [simp]:
  "multicallChunk (reset_if_retryAll ins cs) = multicallChunk cs"
  "gasLimitOverride (reset_if_retryAll ins cs) = gasLimitOverride cs"
  "providerConfig_blockNumber (reset_if_retryAll ins cs) = providerConfig_blockNumber cs"
  "retryAll (reset_if_retryAll ins cs) = retryAll cs"
  "haveRetriedForSuccessRate (reset_if_retryAll ins cs) = haveRetriedForSuccessRate cs"
  "blockHeaderRetryAttemptNumber (reset_if_retryAll ins cs) = blockHeaderRetryAttemptNumber cs"
  "blockHeaderRolledBack (reset_if_retryAll ins cs) = blockHeaderRolledBack cs"
  "haveRetriedForBlockConflictError (reset_if_retryAll ins cs)
     = haveRetriedForBlockConflictError cs"
  "metrics (reset_if_retryAll ins cs) = metrics cs"
  "totalCallsMade (reset_if_retryAll ins cs) = totalCallsMade cs"
  by (simp_all add: reset_if_retryAll_def)

lemma quoteStates_reset_if_retryAll:
  "quoteStates (reset_if_retryAll ins cs) =
     (if retryAll cs then pending_states ins (multicallChunk cs) else quoteStates cs)"
  by (simp add: reset_if_retryAll_def)

subsection \<open>Success-rate failures\<close>

lemma handle_failure_success_rate_first:
  assumes "\<not> haveRetriedForSuccessRate cs"
  shows "gasLimitOverride (handle_failure p g n (SuccessRateError a b) cs)
           = override_gasLimitOverride p
     \<and> multicallChunk (handle_failure p g n (SuccessRateError a b) cs)
           = override_multicallChunk p
     \<and> retryAll (handle_failure p g n (SuccessRateError a b) cs)
     \<and> haveRetriedForSuccessRate (handle_failure p g n (SuccessRateError a b) cs)"
  using assms by (simp add: handle_failure_def putMetric_def)

lemma handle_failure_success_rate_again:
  "haveRetriedForSuccessRate cs \<Longrightarrow> handle_failure p g n (SuccessRateError a b) cs = cs"
  by (simp add: handle_failure_def)

lemma handle_failure_keeps_success_rate_flag:
  "\<not> is_success_rate e \<Longrightarrow>
     haveRetriedForSuccessRate (handle_failure p g n e cs) = haveRetriedForSuccessRate cs"
  by (cases e; simp add: handle_failure_def putMetric_def Let_def)

lemma haveRetriedForSuccessRate_mono:
  "haveRetriedForSuccessRate cs \<Longrightarrow> haveRetriedForSuccessRate (handle_failure p g n e cs)"
  by (cases e; simp add: handle_failure_def putMetric_def Let_def)

lemma haveRetriedForSuccessRate_mono_fold:
  "haveRetriedForSuccessRate cs \<Longrightarrow> haveRetriedForSuccessRate (handle_failures p g n es cs)"
  by (induction es arbitrary: cs) (simp_all add: haveRetriedForSuccessRate_mono)

lemma handle_failures_success_rate:
  assumes "\<exists>e \<in> set es. is_success_rate e" and "\<not> haveRetriedForSuccessRate cs"
  shows "retryAll (handle_failures p g n es cs)
         \<and> haveRetriedForSuccessRate (handle_failures p g n es cs)"
  using assms
proof (induction es arbitrary: cs)
  case Nil
  then show ?case by simp
next
  case (Cons e es)
  show ?case
  proof (cases "is_success_rate e")
    case True
    then obtain a b where e: "e = SuccessRateError a b" by (cases e) auto
    have "retryAll (handle_failure p g n e cs) \<and> haveRetriedForSuccessRate (handle_failure p g n e cs)"
      using handle_failure_success_rate_first [OF Cons.prems(2)] e by simp
    then show ?thesis
      by (simp add: retryAll_handle_failures haveRetriedForSuccessRate_mono_fold)
  next
    case False
    then have "\<exists>e \<in> set es. is_success_rate e" using Cons.prems(1) by auto
    moreover have "\<not> haveRetriedForSuccessRate (handle_failure p g n e cs)"
      using False Cons.prems(2) by (simp add: handle_failure_keeps_success_rate_flag)
    ultimately show ?thesis using Cons.IH by simp
  qed
qed

lemma success_rate_failure_fresh:
  assumes "Failed ins e r \<in> set (quoteStates (execute_batches p mc n cs))"
    and "is_success_rate e"
  shows "\<not> haveRetriedForSuccessRate cs"
proof -
  obtain idx q where "Failed ins e r = run_batch p mc n cs (length (quoteStates cs)) idx q"
    using in_execute_batches [OF assms(1)] by blast
  then show ?thesis using run_batch_Failed [of p mc n cs _ idx q ins e r] assms(2) by simp
qed

lemma attempt_state_success_rate:
  assumes "Failed ins' (SuccessRateError a b) r \<in> set (quoteStates (execute_batches p mc n cs))"
  shows "quoteStates (attempt_state p mc g ins totalCalls n cs)
           = pending_states ins (multicallChunk (attempt_state p mc g ins totalCalls n cs))
     \<and> haveRetriedForSuccessRate (attempt_state p mc g ins totalCalls n cs)"
proof -
  let ?cs1 = "execute_batches p mc n cs"
  let ?cs2 = "?cs1\<lparr>retryAll := (validateBlockNumbers (successes (quoteStates ?cs1)) totalCalls
                        (gasLimitOverride ?cs1) \<noteq> None)\<rparr>"
  have fresh: "\<not> haveRetriedForSuccessRate ?cs2"
    using success_rate_failure_fresh [OF assms] by simp
  have "SuccessRateError a b \<in> set (failure_reasons (quoteStates ?cs1))"
    using assms by (auto simp: in_failure_reasons_iff)
  then have "\<exists>e \<in> set (failure_reasons (quoteStates ?cs1)). is_success_rate e"
    by (rule bexI [rotated]) simp
  from handle_failures_success_rate [OF this fresh]
  show ?thesis
    by (simp add: attempt_state_def Let_def quoteStates_reset_if_retryAll)
qed

subsection \<open>Evaluation of the initial state\<close>

lemma initial_state_fields [simp]:
  "quoteStates (initial_state p ins b) = pending_states ins (batch_multicallChunk p)"
  "multicallChunk (initial_state p ins b) = batch_multicallChunk p"
  "gasLimitOverride (initial_state p ins b) = batch_gasLimitPerCall p"
  "providerConfig_blockNumber (initial_state p ins b) = b"
  "retryAll (initial_state p ins b) = False"
  "haveRetriedForSuccessRate (initial_state p ins b) = False"
  "haveRetriedForBlockHeader (initial_state p ins b) = False"
  "blockHeaderRetryAttemptNumber (initial_state p ins b) = None"
  "blockHeaderRolledBack (initial_state p ins b) = False"
  "haveRetriedForBlockConflictError (initial_state p ins b) = False"
  "totalCallsMade (initial_state p ins b) = 0"
  "metrics (initial_state p ins b) = []"
  by (simp_all add: initial_state_def)

lemma pending_states_single: "0 < c \<Longrightarrow> pending_states [i] c = [Pending [i]]"
  by (simp add: pending_states_def inputsChunked_pos spec_normalized_nat)

lemma default_params_fields [simp]:
  "batch_multicallChunk default_params = 150"
  "batch_gasLimitPerCall default_params = 1000000"
  "quoteMinSuccessRate default_params = Fin (1 / 5)"
  "retries default_params = 2"
  by (simp_all add: default_params_def)

subsection \<open>The success-rate floor\<close>

text \<open>
  Claim C4. With \<open>r = successful / total\<close> over one batch's results,
  \<open>validateSuccessRate\<close> yields an error exactly when \<open>r\<close> is below
  \<open>quoteMinSuccessRate\<close> and the call has not yet retried for success rate; a batch whose
  aggregator call returned is then failed with a \<open>SuccessRateError\<close> (keeping its results),
  and is a success otherwise, in particular when it is below the floor after such a retry.
  Handling the first such failure sets \<open>gasLimitOverride\<close> and \<open>multicallChunk\<close> to the
  configured overrides and sets \<open>retryAll\<close>; an attempt in which a batch failed this way
  ends with every batch reset to pending.
\<close>

theorem C4_success_rate_floor:
  "successRate rs = js_div (js_of_nat (length (filter success rs))) (js_of_nat (length rs))
   \<and> ((\<exists>e. validateSuccessRate p rs retried = Some e)
        \<longleftrightarrow> (js_lt (successRate rs) (quoteMinSuccessRate p) \<and> \<not> retried))
   \<and> (\<not> is_success q
        \<and> mc n idx (inputs q) (providerConfig_blockNumber cs) (gasLimitOverride cs) = Inr res
       \<longrightarrow> run_batch p mc n cs numStates idx q =
            (if js_lt (successRate (results res)) (quoteMinSuccessRate p)
                \<and> \<not> haveRetriedForSuccessRate cs
             then Failed (inputs q)
                    (SuccessRateError (quoteMinSuccessRate p) (successRate (results res)))
                    (Some res)
             else Success (inputs q) res))
   \<and> (\<not> haveRetriedForSuccessRate cs
       \<longrightarrow> gasLimitOverride (handle_failure p g n (SuccessRateError a b) cs)
              = override_gasLimitOverride p
           \<and> multicallChunk (handle_failure p g n (SuccessRateError a b) cs)
              = override_multicallChunk p
           \<and> retryAll (handle_failure p g n (SuccessRateError a b) cs)
           \<and> haveRetriedForSuccessRate (handle_failure p g n (SuccessRateError a b) cs))
   \<and> (Failed ins' (SuccessRateError a b) r \<in> set (quoteStates (execute_batches p mc n cs))
       \<longrightarrow> \<not> haveRetriedForSuccessRate cs
           \<and> haveRetriedForSuccessRate (snd (attempt p mc g ins totalCalls n cs))
           \<and> quoteStates (snd (attempt p mc g ins totalCalls n cs))
               = pending_states ins (multicallChunk (snd (attempt p mc g ins totalCalls n cs)))
           \<and> (\<forall>s \<in> set (quoteStates (snd (attempt p mc g ins totalCalls n cs))). is_pending s))"
proof (intro conjI impI)
  show "successRate rs = js_div (js_of_nat (length (filter success rs))) (js_of_nat (length rs))"
    by (simp add: successRate_def)
  show "(\<exists>e. validateSuccessRate p rs retried = Some e)
        \<longleftrightarrow> (js_lt (successRate rs) (quoteMinSuccessRate p) \<and> \<not> retried)"
    by (simp add: validateSuccessRate_Some_iff)
next
  assume "\<not> is_success q
        \<and> mc n idx (inputs q) (providerConfig_blockNumber cs) (gasLimitOverride cs) = Inr res"
  then show "run_batch p mc n cs numStates idx q =
            (if js_lt (successRate (results res)) (quoteMinSuccessRate p)
                \<and> \<not> haveRetriedForSuccessRate cs
             then Failed (inputs q)
                    (SuccessRateError (quoteMinSuccessRate p) (successRate (results res)))
                    (Some res)
             else Success (inputs q) res)"
    using run_batch_Inr by blast
next
  assume f: "\<not> haveRetriedForSuccessRate cs"
  from handle_failure_success_rate_first [OF f]
  show "gasLimitOverride (handle_failure p g n (SuccessRateError a b) cs)
          = override_gasLimitOverride p"
    and "multicallChunk (handle_failure p g n (SuccessRateError a b) cs)
          = override_multicallChunk p"
    and "retryAll (handle_failure p g n (SuccessRateError a b) cs)"
    and "haveRetriedForSuccessRate (handle_failure p g n (SuccessRateError a b) cs)"
    by blast+
next
  assume m: "Failed ins' (SuccessRateError a b) r \<in> set (quoteStates (execute_batches p mc n cs))"
  show "\<not> haveRetriedForSuccessRate cs"
    using success_rate_failure_fresh [OF m] by simp
  have st: "snd (attempt p mc g ins totalCalls n cs) = attempt_state p mc g ins totalCalls n cs"
    by (simp add: attempt_eq)
  from attempt_state_success_rate [OF m]
  show "haveRetriedForSuccessRate (snd (attempt p mc g ins totalCalls n cs))"
    and q: "quoteStates (snd (attempt p mc g ins totalCalls n cs))
          = pending_states ins (multicallChunk (snd (attempt p mc g ins totalCalls n cs)))"
    unfolding st by blast+
  show "\<forall>s \<in> set (quoteStates (snd (attempt p mc g ins totalCalls n cs))). is_pending s"
    unfolding q by (auto simp: pending_states_def)
qed

lemma low_rate_batches:
  "quoteStates (execute_batches default_params low_rate_multicall n
      (initial_state default_params [example_input] 7))
   = [Failed [example_input] (SuccessRateError (Fin (1 / 5)) (Fin 0))
        (Some \<lparr>blockNumber = 7, results = [ResultErr ''0x''],
               approxGasUsedPerSuccessCall = 0\<rparr>)]"
  by (simp add: quoteStates_execute_batches pending_states_single run_batch_def Let_def
        low_rate_multicall_def validateSuccessRate_def successRate_def js_of_nat_def)

text \<open>With the default parameters (floor 0.2) a batch whose single quote fails is turned into
  a success-rate failure; handling that failure installs the overrides 1300000 and 110, and
  the attempt ends with the call marked as retried for success rate and all batches
  pending.\<close>

theorem C4_success_rate_floor_witness:
  "run_batch default_params low_rate_multicall 1 (initial_state default_params [example_input] 7)
      1 0 (Pending [example_input])
     = Failed [example_input] (SuccessRateError (Fin (1 / 5)) (Fin 0))
         (Some \<lparr>blockNumber = 7, results = [ResultErr ''0x''], approxGasUsedPerSuccessCall = 0\<rparr>)
   \<and> gasLimitOverride (handle_failure default_params (\<lambda>_. 7) 1
         (SuccessRateError (Fin (1 / 5)) (Fin 0))
         (initial_state default_params [example_input] 7)) = 1300000
   \<and> multicallChunk (handle_failure default_params (\<lambda>_. 7) 1
         (SuccessRateError (Fin (1 / 5)) (Fin 0))
         (initial_state default_params [example_input] 7)) = 110
   \<and> haveRetriedForSuccessRate
        (snd (attempt default_params low_rate_multicall (\<lambda>_. 7) [example_input] 1 1
               (initial_state default_params [example_input] 7)))
   \<and> quoteStates
        (snd (attempt default_params low_rate_multicall (\<lambda>_. 7) [example_input] 1 1
               (initial_state default_params [example_input] 7)))
      = pending_states [example_input]
          (multicallChunk
             (snd (attempt default_params low_rate_multicall (\<lambda>_. 7) [example_input] 1 1
                    (initial_state default_params [example_input] 7))))"
proof -
  have m: "Failed [example_input] (SuccessRateError (Fin (1 / 5)) (Fin 0))
        (Some \<lparr>blockNumber = 7, results = [ResultErr ''0x''], approxGasUsedPerSuccessCall = 0\<rparr>)
      \<in> set (quoteStates (execute_batches default_params low_rate_multicall 1
                (initial_state default_params [example_input] 7)))"
    by (simp add: low_rate_batches)
  show ?thesis
    using m C4_success_rate_floor [where p = default_params and mc = low_rate_multicall
      and cs = "initial_state default_params [example_input] 7"
      and q = "Pending [example_input]" and n = 1 and idx = 0 and numStates = 1
      and res = "\<lparr>blockNumber = 7, results = [ResultErr ''0x''], approxGasUsedPerSuccessCall = 0\<rparr>"
      and g = "\<lambda>_. 7" and a = "Fin (1 / 5)" and b = "Fin 0" and ins' = "[example_input]"
      and r = "Some \<lparr>blockNumber = 7, results = [ResultErr ''0x''],
                      approxGasUsedPerSuccessCall = 0\<rparr>"
      and ins = "[example_input]" and totalCalls = 1 and rs = "[]" and retried = False]
    by (simp add: low_rate_multicall_def successRate_def js_of_nat_def default_params_def)
qed

subsection \<open>The retry loop\<close>

lemma retry_invariant:
  assumes "\<And>n cs. I cs \<Longrightarrow> I (snd (f n cs))" and "I cs"
  shows "I (snd (retry f k n cs))"
  using assms(2)
proof (induction k arbitrary: n cs)
  case 0
  then show ?case by (simp add: assms(1))
next
  case (Suc k)
  have "I (snd (f n cs))" using Suc.prems by (rule assms(1))
  then show ?case
    using Suc.IH [of "snd (f n cs)" "Suc n"]
    by (cases "f n cs") (auto split: sum.splits)
qed

lemma retry_relation:
  assumes step: "\<And>n cs. R cs (snd (f n cs))"
    and trans: "\<And>a b c. R a b \<Longrightarrow> R b c \<Longrightarrow> R a c"
  shows "R cs (snd (retry f k n cs))"
proof (induction k arbitrary: n cs)
  case 0
  then show ?case by (simp add: step)
next
  case (Suc k)
  show ?case
  proof (cases "f n cs")
    case (Pair r cs')
    have 1: "R cs cs'" using step [of cs n] Pair by simp
    show ?thesis
    proof (cases r)
      case (Inl e)
      have "R cs' (snd (retry f k (Suc n) cs'))" by (rule Suc.IH)
      with 1 have "R cs (snd (retry f k (Suc n) cs'))" by (rule trans)
      then show ?thesis using Pair Inl by simp
    next
      case (Inr v)
      then show ?thesis using Pair 1 by simp
    qed
  qed
qed

lemma retry_returns:
  assumes "\<And>n cs. I cs \<Longrightarrow> I (snd (f n cs))" and "I cs"
    and "retry f k n cs = (Inr v, cs')"
  shows "\<exists>m c. I c \<and> f m c = (Inr v, cs')"
  using assms(2,3)
proof (induction k arbitrary: n cs)
  case 0
  then show ?case by auto
next
  case (Suc k)
  show ?case
  proof (cases "f n cs")
    case (Pair r c1)
    show ?thesis
    proof (cases r)
      case (Inl e)
      have "I c1" using assms(1) [OF Suc.prems(1), of n] Pair by simp
      moreover have "retry f k (Suc n) c1 = (Inr v, cs')"
        using Suc.prems(2) Pair Inl by simp
      ultimately show ?thesis by (rule Suc.IH)
    next
      case (Inr w)
      then have "f n cs = (Inr v, cs')" using Suc.prems(2) Pair by simp
      then show ?thesis using Suc.prems(1) by blast
    qed
  qed
qed

subsection \<open>Block-header failures and the rollback\<close>

lemma rolled_back_at_most_once_refl: "rolled_back_at_most_once cs cs"
  by (simp add: rolled_back_at_most_once_def)

lemma rolled_back_at_most_once_trans:
  "rolled_back_at_most_once a b \<Longrightarrow> rolled_back_at_most_once b c
    \<Longrightarrow> rolled_back_at_most_once a c"
  unfolding rolled_back_at_most_once_def by auto

lemma handle_failure_rolled_back_at_most_once:
  "rolled_back_at_most_once cs (handle_failure p g n e cs)"
  by (cases e; simp add: rolled_back_at_most_once_def handle_failure_def putMetric_def Let_def)

lemma handle_failures_rolled_back_at_most_once:
  "rolled_back_at_most_once cs (handle_failures p g n es cs)"
proof (induction es arbitrary: cs)
  case Nil
  then show ?case by (simp add: rolled_back_at_most_once_refl)
next
  case (Cons e es)
  have "rolled_back_at_most_once cs (handle_failure p g n e cs)"
    by (rule handle_failure_rolled_back_at_most_once)
  moreover have "rolled_back_at_most_once (handle_failure p g n e cs)
      (handle_failures p g n es (handle_failure p g n e cs))"
    by (rule Cons.IH)
  ultimately show ?case
    by (simp add: rolled_back_at_most_once_trans [of cs "handle_failure p g n e cs"])
qed

lemma attempt_rolled_back_at_most_once:
  "rolled_back_at_most_once cs (snd (attempt p mc g ins totalCalls n cs))"
proof -
  let ?cs1 = "execute_batches p mc n cs"
  let ?cs2 = "?cs1\<lparr>retryAll := (validateBlockNumbers (successes (quoteStates ?cs1)) totalCalls
                        (gasLimitOverride ?cs1) \<noteq> None)\<rparr>"
  have "rolled_back_at_most_once ?cs2
          (handle_failures p g n (failure_reasons (quoteStates ?cs1)) ?cs2)"
    by (rule handle_failures_rolled_back_at_most_once)
  then show ?thesis
    by (simp add: attempt_eq attempt_state_def Let_def rolled_back_at_most_once_def)
qed

lemma handle_failure_header_rollback:
  assumes "rollback p" and "blockHeaderRetryAttemptNumber cs = Some k" and "0 < k" and "k < n"
    and "\<not> blockHeaderRolledBack cs" and "providerConfig_blockNumber cs \<noteq> 0"
  shows "providerConfig_blockNumber (handle_failure p g n (ProviderBlockHeaderError m) cs)
           = providerConfig_blockNumber cs - 1
     \<and> blockHeaderRolledBack (handle_failure p g n (ProviderBlockHeaderError m) cs)
     \<and> retryAll (handle_failure p g n (ProviderBlockHeaderError m) cs)"
  using assms by (simp add: handle_failure_def putMetric_def Let_def)

lemma handle_failure_not_header:
  assumes "\<not> is_block_header e"
  shows "providerConfig_blockNumber (handle_failure p g n e cs) = providerConfig_blockNumber cs
     \<and> blockHeaderRolledBack (handle_failure p g n e cs) = blockHeaderRolledBack cs
     \<and> blockHeaderRetryAttemptNumber (handle_failure p g n e cs)
         = blockHeaderRetryAttemptNumber cs"
  using assms by (cases e; simp add: handle_failure_def putMetric_def Let_def)

lemma handle_failures_after_rollback:
  assumes "blockHeaderRolledBack cs"
  shows "providerConfig_blockNumber (handle_failures p g n es cs) = providerConfig_blockNumber cs
     \<and> blockHeaderRolledBack (handle_failures p g n es cs)"
  using handle_failures_rolled_back_at_most_once [of cs p g n es] assms
  by (auto simp: rolled_back_at_most_once_def)

lemma handle_failures_header_rollback:
  assumes "\<exists>e \<in> set es. is_block_header e"
    and "rollback p" and "blockHeaderRetryAttemptNumber cs = Some k" and "0 < k" and "k < n"
    and "\<not> blockHeaderRolledBack cs" and "providerConfig_blockNumber cs \<noteq> 0"
  shows "providerConfig_blockNumber (handle_failures p g n es cs)
           = providerConfig_blockNumber cs - 1
     \<and> blockHeaderRolledBack (handle_failures p g n es cs)
     \<and> retryAll (handle_failures p g n es cs)"
  using assms
proof (induction es arbitrary: cs)
  case Nil
  then show ?case by simp
next
  case (Cons e es)
  show ?case
  proof (cases "is_block_header e")
    case True
    then obtain m where e: "e = ProviderBlockHeaderError m" by (cases e) auto
    have h: "providerConfig_blockNumber (handle_failure p g n e cs)
           = providerConfig_blockNumber cs - 1
       \<and> blockHeaderRolledBack (handle_failure p g n e cs)
       \<and> retryAll (handle_failure p g n e cs)"
      unfolding e using Cons.prems(2-7) by (rule handle_failure_header_rollback)
    then show ?thesis
      using handle_failures_after_rollback [of "handle_failure p g n e cs" p g n es]
      by (simp add: retryAll_handle_failures)
  next
    case False
    then have ex: "\<exists>e \<in> set es. is_block_header e" using Cons.prems(1) by auto
    have keep: "providerConfig_blockNumber (handle_failure p g n e cs) = providerConfig_blockNumber cs
       \<and> blockHeaderRolledBack (handle_failure p g n e cs) = blockHeaderRolledBack cs
       \<and> blockHeaderRetryAttemptNumber (handle_failure p g n e cs)
           = blockHeaderRetryAttemptNumber cs"
      using False by (rule handle_failure_not_header)
    have "providerConfig_blockNumber (handle_failures p g n es (handle_failure p g n e cs))
           = providerConfig_blockNumber (handle_failure p g n e cs) - 1
       \<and> blockHeaderRolledBack (handle_failures p g n es (handle_failure p g n e cs))
       \<and> retryAll (handle_failures p g n es (handle_failure p g n e cs))"
      using ex Cons.prems(2-7) keep by (intro Cons.IH) simp_all
    then show ?thesis using keep by simp
  qed
qed

subsection \<open>Evaluation of the example states\<close>

lemma rollback_params_fields [simp]:
  "rollback rollback_params" "batch_multicallChunk rollback_params = 150"
  "retries rollback_params = 2"
  by (simp_all add: rollback_params_def default_params_def)

lemma header_missing_batch:
  "\<not> is_success q \<Longrightarrow>
     run_batch p header_missing_multicall n cs numStates idx q
       = Failed (inputs q) (ProviderBlockHeaderError ''header not found'') None"
  by (simp add: run_batch_def header_missing_multicall_def classify_error_def slice500_def Let_def)

lemma after_first_header_failure_fields:
  "quoteStates (after_first_header_failure b cur)
     = [Failed [example_input] (ProviderBlockHeaderError ''header not found'') None]"
  "providerConfig_blockNumber (after_first_header_failure b cur) = b"
  "blockHeaderRetryAttemptNumber (after_first_header_failure b cur) = Some 1"
  "\<not> blockHeaderRolledBack (after_first_header_failure b cur)"
  by (simp_all add: after_first_header_failure_def attempt_eq attempt_state_def Let_def
        quoteStates_execute_batches pending_states_single header_missing_batch
        failure_reasons_def validateBlockNumbers_def handle_failure_def putMetric_def
        reset_if_retryAll_def)

lemma snd_getQuotesManyData:
  "snd (getQuotesManyData p enc hex mc g amounts routes fn cfg) =
     snd (retry (attempt p mc g (plan_inputs enc hex fn routes amounts)
                   (length (quoteStates (initial_state p (plan_inputs enc hex fn routes amounts)
                      (case cfg of Some b \<Rightarrow> b | None \<Rightarrow> g 0)))))
            (retries p) 1
            (initial_state p (plan_inputs enc hex fn routes amounts)
               (case cfg of Some b \<Rightarrow> b | None \<Rightarrow> g 0)))"
  by (simp add: getQuotesManyData_def Let_def split: prod.splits)

lemma retry_rolled_back_at_most_once:
  "rolled_back_at_most_once cs (snd (retry (attempt p mc g ins totalCalls) k n cs))"
  by (rule retry_relation [where R = rolled_back_at_most_once])
     (rule attempt_rolled_back_at_most_once, erule rolled_back_at_most_once_trans, assumption)

lemma attempt_state_header_rollback:
  assumes "rollback p" and "blockHeaderRetryAttemptNumber cs = Some k" and "0 < k" and "k < n"
    and "\<not> blockHeaderRolledBack cs" and "providerConfig_blockNumber cs \<noteq> 0"
    and "Failed ins' (ProviderBlockHeaderError m) r
           \<in> set (quoteStates (execute_batches p mc n cs))"
  shows "providerConfig_blockNumber (attempt_state p mc g ins totalCalls n cs)
           = providerConfig_blockNumber cs - 1
     \<and> blockHeaderRolledBack (attempt_state p mc g ins totalCalls n cs)
     \<and> quoteStates (attempt_state p mc g ins totalCalls n cs)
           = pending_states ins (multicallChunk (attempt_state p mc g ins totalCalls n cs))"
proof -
  let ?cs1 = "execute_batches p mc n cs"
  let ?cs2 = "?cs1\<lparr>retryAll := (validateBlockNumbers (successes (quoteStates ?cs1)) totalCalls
                        (gasLimitOverride ?cs1) \<noteq> None)\<rparr>"
  have "ProviderBlockHeaderError m \<in> set (failure_reasons (quoteStates ?cs1))"
    using assms(7) by (auto simp: in_failure_reasons_iff)
  then have ex: "\<exists>e \<in> set (failure_reasons (quoteStates ?cs1)). is_block_header e"
    by (rule bexI [rotated]) simp
  have "providerConfig_blockNumber
          (handle_failures p g n (failure_reasons (quoteStates ?cs1)) ?cs2)
           = providerConfig_blockNumber ?cs2 - 1
     \<and> blockHeaderRolledBack (handle_failures p g n (failure_reasons (quoteStates ?cs1)) ?cs2)
     \<and> retryAll (handle_failures p g n (failure_reasons (quoteStates ?cs1)) ?cs2)"
    using ex assms(1-6) by (intro handle_failures_header_rollback [where k = k]) simp_all
  then show ?thesis
    by (simp add: attempt_state_def Let_def quoteStates_reset_if_retryAll)
qed

text \<open>
  Claim C5, amended. With rollback enabled, when an attempt meets a block-header failure, an
  earlier attempt had met one too (\<open>blockHeaderRetryAttemptNumber\<close> holds an attempt number
  below the current one), no rollback has happened yet in this call and the pinned block
  number is not zero, the attempt ends with the pinned block number decremented by exactly
  one and every batch reset to pending. Once a rollback has happened, no later attempt
  changes the pinned block; so over a whole call that pins a non-zero block \<open>b\<close> the pinned
  block at the end is \<open>b\<close> or \<open>b - 1\<close>. (A pinned block number of zero fails the truthiness
  test of the rollback; what the code does then is left out.)
\<close>

theorem C5_rollback_once:
  "(rollback p \<and> blockHeaderRetryAttemptNumber cs = Some k \<and> 0 < k \<and> k < n
      \<and> \<not> blockHeaderRolledBack cs \<and> providerConfig_blockNumber cs \<noteq> 0
      \<and> Failed ins' (ProviderBlockHeaderError m) r
           \<in> set (quoteStates (execute_batches p mc n cs))
     \<longrightarrow> providerConfig_blockNumber (snd (attempt p mc g ins totalCalls n cs))
            = providerConfig_blockNumber cs - 1
         \<and> blockHeaderRolledBack (snd (attempt p mc g ins totalCalls n cs))
         \<and> quoteStates (snd (attempt p mc g ins totalCalls n cs))
            = pending_states ins (multicallChunk (snd (attempt p mc g ins totalCalls n cs)))
         \<and> (\<forall>s \<in> set (quoteStates (snd (attempt p mc g ins totalCalls n cs))). is_pending s))
   \<and> (blockHeaderRolledBack cs
     \<longrightarrow> providerConfig_blockNumber (snd (attempt p mc g ins totalCalls n cs))
            = providerConfig_blockNumber cs
         \<and> blockHeaderRolledBack (snd (attempt p mc g ins totalCalls n cs)))
   \<and> rolled_back_at_most_once cs (snd (attempt p mc g ins totalCalls n cs))
   \<and> (b \<noteq> 0
     \<longrightarrow> providerConfig_blockNumber
            (snd (getQuotesManyData p enc hex mc g amounts routes fn (Some b))) = b
         \<or> providerConfig_blockNumber
            (snd (getQuotesManyData p enc hex mc g amounts routes fn (Some b))) = b - 1)"
proof (intro conjI impI)
  assume a: "rollback p \<and> blockHeaderRetryAttemptNumber cs = Some k \<and> 0 < k \<and> k < n
      \<and> \<not> blockHeaderRolledBack cs \<and> providerConfig_blockNumber cs \<noteq> 0
      \<and> Failed ins' (ProviderBlockHeaderError m) r
           \<in> set (quoteStates (execute_batches p mc n cs))"
  have st: "snd (attempt p mc g ins totalCalls n cs) = attempt_state p mc g ins totalCalls n cs"
    by (simp add: attempt_eq)
  have "providerConfig_blockNumber (attempt_state p mc g ins totalCalls n cs)
           = providerConfig_blockNumber cs - 1
     \<and> blockHeaderRolledBack (attempt_state p mc g ins totalCalls n cs)
     \<and> quoteStates (attempt_state p mc g ins totalCalls n cs)
           = pending_states ins (multicallChunk (attempt_state p mc g ins totalCalls n cs))"
    using a by (intro attempt_state_header_rollback [where k = k and m = m]) blast+
  then show "providerConfig_blockNumber (snd (attempt p mc g ins totalCalls n cs))
            = providerConfig_blockNumber cs - 1"
    and "blockHeaderRolledBack (snd (attempt p mc g ins totalCalls n cs))"
    and q: "quoteStates (snd (attempt p mc g ins totalCalls n cs))
            = pending_states ins (multicallChunk (snd (attempt p mc g ins totalCalls n cs)))"
    unfolding st by blast+
  show "\<forall>s \<in> set (quoteStates (snd (attempt p mc g ins totalCalls n cs))). is_pending s"
    unfolding q by (auto simp: pending_states_def)
next
  assume rb: "blockHeaderRolledBack cs"
  have "rolled_back_at_most_once cs (snd (attempt p mc g ins totalCalls n cs))"
    by (rule attempt_rolled_back_at_most_once)
  then show "providerConfig_blockNumber (snd (attempt p mc g ins totalCalls n cs))
            = providerConfig_blockNumber cs"
    and "blockHeaderRolledBack (snd (attempt p mc g ins totalCalls n cs))"
    using rb by (auto simp: rolled_back_at_most_once_def)
next
  show "rolled_back_at_most_once cs (snd (attempt p mc g ins totalCalls n cs))"
    by (rule attempt_rolled_back_at_most_once)
next
  assume b: "b \<noteq> 0"
  let ?ins = "plan_inputs enc hex fn routes amounts"
  have "rolled_back_at_most_once (initial_state p ?ins b)
          (snd (getQuotesManyData p enc hex mc g amounts routes fn (Some b)))"
    by (simp add: snd_getQuotesManyData retry_rolled_back_at_most_once)
  then show "providerConfig_blockNumber
            (snd (getQuotesManyData p enc hex mc g amounts routes fn (Some b))) = b
         \<or> providerConfig_blockNumber
            (snd (getQuotesManyData p enc hex mc g amounts routes fn (Some b))) = b - 1"
    using b by (auto simp: rolled_back_at_most_once_def)
qed

text \<open>The second attempt of a call pinned at block 100 whose first attempt already met a
  missing header: the block is rolled back to 99, and the third attempt, which meets the
  missing header again, leaves it at 99.\<close>

theorem C5_rollback_once_witness:
  "providerConfig_blockNumber (after_first_header_failure 100 100) = 100
   \<and> providerConfig_blockNumber
       (snd (attempt rollback_params header_missing_multicall (\<lambda>_. 100) [example_input] 1 2
              (after_first_header_failure 100 100))) = 99
   \<and> blockHeaderRolledBack
       (snd (attempt rollback_params header_missing_multicall (\<lambda>_. 100) [example_input] 1 2
              (after_first_header_failure 100 100)))
   \<and> providerConfig_blockNumber
       (snd (attempt rollback_params header_missing_multicall (\<lambda>_. 100) [example_input] 1 3
         (snd (attempt rollback_params header_missing_multicall (\<lambda>_. 100) [example_input] 1 2
              (after_first_header_failure 100 100))))) = 99"
proof -
  let ?s1 = "after_first_header_failure 100 100"
  let ?s2 = "snd (attempt rollback_params header_missing_multicall (\<lambda>_. 100) [example_input]
                1 2 ?s1)"
  have m: "Failed [example_input] (ProviderBlockHeaderError ''header not found'') None
      \<in> set (quoteStates (execute_batches rollback_params header_missing_multicall 2 ?s1))"
    by (simp add: quoteStates_execute_batches after_first_header_failure_fields
          header_missing_batch)
  have 2: "providerConfig_blockNumber ?s2 = 99 \<and> blockHeaderRolledBack ?s2"
    using C5_rollback_once [where p = rollback_params and cs = ?s1
        and k = 1 and n = 2 and mc = header_missing_multicall and ins' = "[example_input]"
        and m = "''header not found''" and r = None and g = "\<lambda>_. 100"
        and ins = "[example_input]" and totalCalls = 1 and b = 100
        and enc = "\<lambda>(route :: unit) reverse. ''p''" and hex = "\<lambda>(a :: unit). ''0x1''"
        and amounts = "[()]" and routes = "[()]" and fn = QuoteExactInput] m
    by (simp add: after_first_header_failure_fields)
  have 3: "providerConfig_blockNumber
       (snd (attempt rollback_params header_missing_multicall (\<lambda>_. 100) [example_input] 1 3 ?s2))
       = providerConfig_blockNumber ?s2"
    using C5_rollback_once [where p = rollback_params and cs = ?s2
        and k = 1 and n = 3 and mc = header_missing_multicall and ins' = "[example_input]"
        and m = "''header not found''" and r = None and g = "\<lambda>_. 100"
        and ins = "[example_input]" and totalCalls = 1 and b = 100
        and enc = "\<lambda>(route :: unit) reverse. ''p''" and hex = "\<lambda>(a :: unit). ''0x1''"
        and amounts = "[()]" and routes = "[()]" and fn = QuoteExactInput] 2
    by blast
  show ?thesis using 2 3 by (simp add: after_first_header_failure_fields)
qed

text \<open>
  Claim C5 as stated fails for a call pinned at block 0 (the provider being at block 1000):
  all hypotheses of the claim hold before the second attempt, and the attempt replaces the
  pinned block by the provider's current block minus one, 999, instead of decrementing it.
\<close>

theorem C5_pinned_zero_counterexample:
  "rollback rollback_params
   \<and> blockHeaderRetryAttemptNumber (after_first_header_failure 0 1000) = Some 1
   \<and> \<not> blockHeaderRolledBack (after_first_header_failure 0 1000)
   \<and> providerConfig_blockNumber (after_first_header_failure 0 1000) = 0
   \<and> Failed [example_input] (ProviderBlockHeaderError ''header not found'') None
      \<in> set (quoteStates (execute_batches rollback_params header_missing_multicall 2
                (after_first_header_failure 0 1000)))
   \<and> providerConfig_blockNumber
       (snd (attempt rollback_params header_missing_multicall (\<lambda>_. 1000) [example_input] 1 2
              (after_first_header_failure 0 1000))) = 999
   \<and> providerConfig_blockNumber
       (snd (attempt rollback_params header_missing_multicall (\<lambda>_. 1000) [example_input] 1 2
              (after_first_header_failure 0 1000)))
       \<noteq> providerConfig_blockNumber (after_first_header_failure 0 1000) - 1"
  by (simp add: after_first_header_failure_fields attempt_eq attempt_state_def Let_def
        quoteStates_execute_batches header_missing_batch
        failure_reasons_def validateBlockNumbers_def handle_failure_def putMetric_def
        reset_if_retryAll_def)

subsection \<open>Block conflicts never reach the batch vector\<close>

lemma no_conflict_in_execute_batches:
  "e \<in> set (failure_reasons (quoteStates (execute_batches p mc n cs))) \<Longrightarrow> \<not> is_block_conflict e"
proof -
  assume "e \<in> set (failure_reasons (quoteStates (execute_batches p mc n cs)))"
  then obtain ins r where "Failed ins e r \<in> set (quoteStates (execute_batches p mc n cs))"
    by (auto simp: in_failure_reasons_iff)
  then obtain idx q where "Failed ins e r = run_batch p mc n cs (length (quoteStates cs)) idx q"
    using in_execute_batches by blast
  then show ?thesis using run_batch_Failed [of p mc n cs _ idx q ins e r] by simp
qed

lemma not_failed_with_conflict_execute_batches:
  "list_all (\<lambda>q. \<not> failed_with_conflict q) (quoteStates (execute_batches p mc n cs))"
proof -
  have "\<not> failed_with_conflict x" if "x \<in> set (quoteStates (execute_batches p mc n cs))" for x
  proof (cases x)
    case (Failed ins e r)
    then have "e \<in> set (failure_reasons (quoteStates (execute_batches p mc n cs)))"
      using that by (auto simp: in_failure_reasons_iff)
    then show ?thesis using Failed no_conflict_in_execute_batches
      by (simp add: failed_with_conflict_def)
  qed (simp_all add: failed_with_conflict_def)
  then show ?thesis by (simp add: list_all_iff)
qed

lemma handle_failure_no_conflict_metric:
  assumes "\<not> is_block_conflict e"
  shows "haveRetriedForBlockConflictError (handle_failure p g n e cs)
           = haveRetriedForBlockConflictError cs
     \<and> (''QuoteBlockConflictErrorRetry'' \<in> set (metrics (handle_failure p g n e cs))
          \<longleftrightarrow> ''QuoteBlockConflictErrorRetry'' \<in> set (metrics cs))"
  using assms by (cases e; simp add: handle_failure_def putMetric_def Let_def)

lemma handle_failures_no_conflict_metric:
  assumes "\<forall>e \<in> set es. \<not> is_block_conflict e"
  shows "haveRetriedForBlockConflictError (handle_failures p g n es cs)
           = haveRetriedForBlockConflictError cs
     \<and> (''QuoteBlockConflictErrorRetry'' \<in> set (metrics (handle_failures p g n es cs))
          \<longleftrightarrow> ''QuoteBlockConflictErrorRetry'' \<in> set (metrics cs))"
  using assms
proof (induction es arbitrary: cs)
  case Nil
  then show ?case by simp
next
  case (Cons e es)
  then have "\<not> is_block_conflict e" and "\<forall>e \<in> set es. \<not> is_block_conflict e" by simp_all
  then show ?case
    using Cons.IH [of "handle_failure p g n e cs"] handle_failure_no_conflict_metric [of e p g n cs]
    by simp
qed

lemma pending_states_no_conflict:
  "list_all (\<lambda>q. \<not> failed_with_conflict q) (pending_states ins c)"
  by (simp add: pending_states_def list_all_iff failed_with_conflict_def)

lemma attempt_no_failed_with_conflict:
  "list_all (\<lambda>q. \<not> failed_with_conflict q)
     (quoteStates (snd (attempt p mc g ins totalCalls n cs)))"
  by (simp add: attempt_eq attempt_state_def Let_def quoteStates_reset_if_retryAll
        pending_states_no_conflict not_failed_with_conflict_execute_batches)

lemma attempt_no_conflict_retry:
  assumes "no_conflict_retry cs"
  shows "no_conflict_retry (snd (attempt p mc g ins totalCalls n cs))"
proof -
  let ?cs1 = "execute_batches p mc n cs"
  let ?cs2 = "?cs1\<lparr>retryAll := (validateBlockNumbers (successes (quoteStates ?cs1)) totalCalls
                        (gasLimitOverride ?cs1) \<noteq> None)\<rparr>"
  let ?cs3 = "handle_failures p g n (failure_reasons (quoteStates ?cs1)) ?cs2"
  have "\<forall>e \<in> set (failure_reasons (quoteStates ?cs1)). \<not> is_block_conflict e"
    using no_conflict_in_execute_batches by blast
  from handle_failures_no_conflict_metric [OF this, of p g n ?cs2]
  have 1: "\<not> haveRetriedForBlockConflictError ?cs3"
    and 2: "''QuoteBlockConflictErrorRetry'' \<notin> set (metrics ?cs3)"
    using assms by (simp_all add: no_conflict_retry_def)
  have "\<not> haveRetriedForBlockConflictError (snd (attempt p mc g ins totalCalls n cs))"
    and "''QuoteBlockConflictErrorRetry''
           \<notin> set (metrics (snd (attempt p mc g ins totalCalls n cs)))"
    using 1 2 by (simp_all add: attempt_eq attempt_state_def Let_def)
  then show ?thesis
    using attempt_no_failed_with_conflict [of p mc g ins totalCalls n cs]
    by (simp add: no_conflict_retry_def)
qed

lemma initial_no_conflict_retry: "no_conflict_retry (initial_state p ins b)"
  by (simp add: no_conflict_retry_def pending_states_no_conflict)

text \<open>
  Claim C8. Whatever the state and the aggregator, the reasons of the failed batches that an
  attempt hands to the retry controller never include a \<open>BlockConflictError\<close>, and neither the
  batch vector after the join nor the one the attempt leaves behind holds a batch failed with
  one: a conflict found by
  \<open>validateBlockNumbers\<close> only sets \<open>retryAll\<close>. Hence over a whole call, with any number
  of retries, the controller's \<open>BlockConflictError\<close> branch is never taken:
  \<open>haveRetriedForBlockConflictError\<close> stays false and the metric
  \<^verbatim>\<open>QuoteBlockConflictErrorRetry\<close> is never emitted.
\<close>

theorem C8_block_conflict_never_recorded:
  "list_all (\<lambda>e. \<not> is_block_conflict e)
     (failure_reasons (quoteStates (execute_batches p mc n cs)))
   \<and> list_all (\<lambda>q. \<not> failed_with_conflict q) (quoteStates (execute_batches p mc n cs))
   \<and> list_all (\<lambda>q. \<not> failed_with_conflict q)
        (quoteStates (snd (attempt p mc g ins totalCalls n cs)))
   \<and> no_conflict_retry (snd (getQuotesManyData p enc hex mc g amounts routes fn cfg))
   \<and> \<not> haveRetriedForBlockConflictError
         (snd (getQuotesManyData p enc hex mc g amounts routes fn cfg))
   \<and> ''QuoteBlockConflictErrorRetry''
        \<notin> set (metrics (snd (getQuotesManyData p enc hex mc g amounts routes fn cfg)))"
proof -
  have 1: "list_all (\<lambda>e. \<not> is_block_conflict e)
     (failure_reasons (quoteStates (execute_batches p mc n cs)))"
    using no_conflict_in_execute_batches by (auto simp: list_all_iff)
  have 2: "no_conflict_retry (snd (getQuotesManyData p enc hex mc g amounts routes fn cfg))"
    unfolding snd_getQuotesManyData
    by (rule retry_invariant [where I = no_conflict_retry])
       (rule attempt_no_conflict_retry, assumption, rule initial_no_conflict_retry)
  show ?thesis
    using 1 2 attempt_no_failed_with_conflict [of p mc g ins totalCalls n cs]
      not_failed_with_conflict_execute_batches [of p mc n cs]
    by (simp add: no_conflict_retry_def)
qed

subsection \<open>Out-of-gas failures\<close>

lemma handle_failure_out_of_gas:
  "is_out_of_gas e \<Longrightarrow>
     retryAll (handle_failure p g n e cs) = retryAll cs
     \<and> multicallChunk (handle_failure p g n e cs) = 140
     \<and> gasLimitOverride (handle_failure p g n e cs) = 1000000"
  by (cases e; simp add: handle_failure_def putMetric_def Let_def)

lemma handle_failures_out_of_gas:
  assumes "list_all is_out_of_gas es"
  shows "retryAll (handle_failures p g n es cs) = retryAll cs
     \<and> (es \<noteq> [] \<longrightarrow> multicallChunk (handle_failures p g n es cs) = 140
                    \<and> gasLimitOverride (handle_failures p g n es cs) = 1000000)"
  using assms
proof (induction es arbitrary: cs)
  case Nil
  then show ?case by simp
next
  case (Cons e es)
  then have e: "is_out_of_gas e" and es: "list_all is_out_of_gas es" by simp_all
  show ?case
  proof (cases es)
    case Nil
    then show ?thesis using handle_failure_out_of_gas [OF e, of p g n cs] by simp
  next
    case (Cons e' es')
    then show ?thesis
      using Cons.IH [OF es, of "handle_failure p g n e cs"]
        handle_failure_out_of_gas [OF e, of p g n cs]
      by simp
  qed
qed

lemma execute_batches_keeps_success:
  assumes "i < length (quoteStates cs)" and "is_success (quoteStates cs ! i)"
  shows "quoteStates (execute_batches p mc n cs) ! i = quoteStates cs ! i"
  using assms by (simp add: nth_execute_batches run_batch_success)

text \<open>
  Claim C10, amended. When the failures of an attempt are all out-of-gas failures and the
  successful batches of the attempt do not report conflicting block numbers, \<open>retryAll\<close>
  is not set: the attempt leaves the batch vector as the batches produced it, with the same
  input chunks as before and with every batch that was successful before unchanged. If
  there was a failure, \<open>multicallChunk\<close> is now 140 and the gas limit 1000000, but the
  layout is not re-chunked: the next attempt, whatever the aggregator replies, runs on the
  same chunks and leaves the successful batches untouched.
\<close>

theorem C10_out_of_gas_keeps_layout:
  assumes "list_all is_out_of_gas (failure_reasons (quoteStates (execute_batches p mc n cs)))"
    and "validateBlockNumbers (successes (quoteStates (execute_batches p mc n cs))) totalCalls
           (gasLimitOverride cs) = None"
  shows "\<not> retryAll (snd (attempt p mc g ins totalCalls n cs))
     \<and> quoteStates (snd (attempt p mc g ins totalCalls n cs))
         = quoteStates (execute_batches p mc n cs)
     \<and> map inputs (quoteStates (snd (attempt p mc g ins totalCalls n cs)))
         = map inputs (quoteStates cs)
     \<and> (\<forall>i < length (quoteStates cs). is_success (quoteStates cs ! i)
           \<longrightarrow> quoteStates (snd (attempt p mc g ins totalCalls n cs)) ! i = quoteStates cs ! i)
     \<and> (failure_reasons (quoteStates (execute_batches p mc n cs)) \<noteq> []
           \<longrightarrow> multicallChunk (snd (attempt p mc g ins totalCalls n cs)) = 140
               \<and> gasLimitOverride (snd (attempt p mc g ins totalCalls n cs)) = 1000000)
     \<and> map inputs (quoteStates (execute_batches p mc' n'
                       (snd (attempt p mc g ins totalCalls n cs))))
         = map inputs (quoteStates cs)
     \<and> (\<forall>i < length (quoteStates cs).
           is_success (quoteStates (snd (attempt p mc g ins totalCalls n cs)) ! i)
           \<longrightarrow> quoteStates (execute_batches p mc' n'
                   (snd (attempt p mc g ins totalCalls n cs))) ! i
                = quoteStates (snd (attempt p mc g ins totalCalls n cs)) ! i)"
proof -
  let ?cs1 = "execute_batches p mc n cs"
  let ?cs2 = "?cs1\<lparr>retryAll := (validateBlockNumbers (successes (quoteStates ?cs1)) totalCalls
                        (gasLimitOverride ?cs1) \<noteq> None)\<rparr>"
  let ?cs' = "snd (attempt p mc g ins totalCalls n cs)"
  have r2: "\<not> retryAll ?cs2" using assms(2) by simp
  from handle_failures_out_of_gas [OF assms(1), of p g n ?cs2]
  have r3: "\<not> retryAll (handle_failures p g n (failure_reasons (quoteStates ?cs1)) ?cs2)"
    and ch: "failure_reasons (quoteStates ?cs1) \<noteq> [] \<longrightarrow>
          multicallChunk (handle_failures p g n (failure_reasons (quoteStates ?cs1)) ?cs2) = 140
        \<and> gasLimitOverride (handle_failures p g n (failure_reasons (quoteStates ?cs1)) ?cs2)
            = 1000000"
    using r2 by simp_all
  have a: "\<not> retryAll ?cs'"
    using r3 by (simp add: attempt_eq attempt_state_def Let_def)
  have b: "quoteStates ?cs' = quoteStates ?cs1"
    using r3 by (simp add: attempt_eq attempt_state_def Let_def quoteStates_reset_if_retryAll)
  have c: "map inputs (quoteStates ?cs') = map inputs (quoteStates cs)"
    by (simp add: b)
  have d: "\<forall>i < length (quoteStates cs). is_success (quoteStates cs ! i)
           \<longrightarrow> quoteStates ?cs' ! i = quoteStates cs ! i"
    by (simp add: b execute_batches_keeps_success)
  have e: "failure_reasons (quoteStates ?cs1) \<noteq> []
           \<longrightarrow> multicallChunk ?cs' = 140 \<and> gasLimitOverride ?cs' = 1000000"
    using ch by (simp add: attempt_eq attempt_state_def Let_def)
  have f: "map inputs (quoteStates (execute_batches p mc' n' ?cs')) = map inputs (quoteStates cs)"
    by (simp add: c)
  have len: "length (quoteStates ?cs') = length (quoteStates cs)"
    by (simp add: b)
  have h: "\<forall>i < length (quoteStates cs). is_success (quoteStates ?cs' ! i)
           \<longrightarrow> quoteStates (execute_batches p mc' n' ?cs') ! i = quoteStates ?cs' ! i"
    using len by (simp add: execute_batches_keeps_success)
  show ?thesis
    by (intro conjI a b c d e f h)
qed

lemma pending_states_inputs3_1:
  "pending_states inputs3 1
     = [Pending [(''p'', ''0x1'')], Pending [(''p'', ''0x2'')], Pending [(''p'', ''0x3'')]]"
  by (simp add: pending_states_def inputs3_def inputsChunked_pos spec_normalized_nat chunk_pos)

lemma pending_states_inputs3_Suc0:
  "pending_states inputs3 (Suc 0)
     = [Pending [(''p'', ''0x1'')], Pending [(''p'', ''0x2'')], Pending [(''p'', ''0x3'')]]"
  using pending_states_inputs3_1 by simp

lemma pending_states_inputs3_140: "pending_states inputs3 140 = [Pending inputs3]"
  by (simp add: pending_states_def inputs3_def inputsChunked_pos spec_normalized_nat chunk_pos)

lemma chunk_one_params_fields [simp]:
  "batch_multicallChunk chunk_one_params = 1"
  "batch_gasLimitPerCall chunk_one_params = 1000000"
  "quoteMinSuccessRate chunk_one_params = Fin (1 / 5)"
  "retries chunk_one_params = 2"
  by (simp_all add: chunk_one_params_def default_params_def)

lemma successRate_single_ok [simp]: "successRate [quote_ok] = Fin 1"
  by (simp add: successRate_def quote_ok_def js_of_nat_def)

lemma conflict_and_gas_batches:
  "quoteStates (execute_batches chunk_one_params conflict_and_gas_multicall n
      (initial_state chunk_one_params inputs3 100))
   = [Success [(''p'', ''0x1'')]
        \<lparr>blockNumber = 100, results = [quote_ok], approxGasUsedPerSuccessCall = 21000\<rparr>,
      Success [(''p'', ''0x2'')]
        \<lparr>blockNumber = 101, results = [quote_ok], approxGasUsedPerSuccessCall = 21000\<rparr>,
      Failed [(''p'', ''0x3'')] (ProviderGasError ''out of gas'') None]"
  by (simp add: quoteStates_execute_batches pending_states_inputs3_Suc0 run_batch_def Let_def
        conflict_and_gas_multicall_def validateSuccessRate_def classify_error_def slice500_def)

lemma gas_batches:
  "quoteStates (execute_batches chunk_one_params gas_multicall n
      (initial_state chunk_one_params inputs3 100))
   = [Success [(''p'', ''0x1'')]
        \<lparr>blockNumber = 100, results = [quote_ok], approxGasUsedPerSuccessCall = 21000\<rparr>,
      Failed [(''p'', ''0x2'')] (ProviderGasError ''out of gas'') None,
      Failed [(''p'', ''0x3'')] (ProviderGasError ''out of gas'') None]"
  by (simp add: quoteStates_execute_batches pending_states_inputs3_Suc0 run_batch_def Let_def
        gas_multicall_def validateSuccessRate_def classify_error_def slice500_def)

text \<open>One success and two out-of-gas failures: the three batches stay as they are and the
  chunk size drops to 140 without any re-chunking.\<close>

theorem C10_out_of_gas_keeps_layout_witness:
  "quoteStates (snd (attempt chunk_one_params gas_multicall (\<lambda>_. 100) inputs3 3 1
      (initial_state chunk_one_params inputs3 100)))
   = [Success [(''p'', ''0x1'')]
        \<lparr>blockNumber = 100, results = [quote_ok], approxGasUsedPerSuccessCall = 21000\<rparr>,
      Failed [(''p'', ''0x2'')] (ProviderGasError ''out of gas'') None,
      Failed [(''p'', ''0x3'')] (ProviderGasError ''out of gas'') None]
   \<and> multicallChunk (snd (attempt chunk_one_params gas_multicall (\<lambda>_. 100) inputs3 3 1
      (initial_state chunk_one_params inputs3 100))) = 140"
proof -
  have h1: "list_all is_out_of_gas
     (failure_reasons (quoteStates (execute_batches chunk_one_params gas_multicall 1
        (initial_state chunk_one_params inputs3 100))))"
    by (simp add: gas_batches failure_reasons_def)
  have h2: "validateBlockNumbers
     (successes (quoteStates (execute_batches chunk_one_params gas_multicall 1
        (initial_state chunk_one_params inputs3 100)))) 3
     (gasLimitOverride (initial_state chunk_one_params inputs3 100)) = None"
    by (simp add: gas_batches validateBlockNumbers_def)
  have h3: "failure_reasons (quoteStates (execute_batches chunk_one_params gas_multicall 1
        (initial_state chunk_one_params inputs3 100))) \<noteq> []"
    by (simp add: gas_batches failure_reasons_def)
  from C10_out_of_gas_keeps_layout [OF h1 h2, of "\<lambda>_. 100" inputs3 gas_multicall 2] h3
  show ?thesis by (simp add: gas_batches)
qed

text \<open>
  Claim C10 as stated fails: here the only failure of the attempt is an out-of-gas failure,
  but the two successful batches report blocks 100 and 101, so \<open>retryAll\<close> is set by the
  block-number validator and the three batches are replaced by one pending batch of all
  three inputs, chunked with the lowered \<open>multicallChunk = 140\<close>.
\<close>

theorem C10_block_conflict_counterexample:
  "list_all is_out_of_gas
     (failure_reasons (quoteStates (execute_batches chunk_one_params conflict_and_gas_multicall 1
        (initial_state chunk_one_params inputs3 100))))
   \<and> quoteStates (execute_batches chunk_one_params conflict_and_gas_multicall 1
        (initial_state chunk_one_params inputs3 100))
      = [Success [(''p'', ''0x1'')]
           \<lparr>blockNumber = 100, results = [quote_ok], approxGasUsedPerSuccessCall = 21000\<rparr>,
         Success [(''p'', ''0x2'')]
           \<lparr>blockNumber = 101, results = [quote_ok], approxGasUsedPerSuccessCall = 21000\<rparr>,
         Failed [(''p'', ''0x3'')] (ProviderGasError ''out of gas'') None]
   \<and> quoteStates (snd (attempt chunk_one_params conflict_and_gas_multicall (\<lambda>_. 100) inputs3 3 1
        (initial_state chunk_one_params inputs3 100)))
      = [Pending inputs3]
   \<and> map inputs (quoteStates (snd (attempt chunk_one_params conflict_and_gas_multicall
        (\<lambda>_. 100) inputs3 3 1 (initial_state chunk_one_params inputs3 100))))
      \<noteq> map inputs (quoteStates (initial_state chunk_one_params inputs3 100))"
proof -
  have a: "quoteStates (snd (attempt chunk_one_params conflict_and_gas_multicall (\<lambda>_. 100)
        inputs3 3 1 (initial_state chunk_one_params inputs3 100))) = [Pending inputs3]"
    by (simp add: attempt_eq attempt_state_def Let_def conflict_and_gas_batches
          failure_reasons_def validateBlockNumbers_def handle_failure_def putMetric_def
          reset_if_retryAll_def pending_states_inputs3_140)
  have b: "quoteStates (initial_state chunk_one_params inputs3 100)
      = [Pending [(''p'', ''0x1'')], Pending [(''p'', ''0x2'')], Pending [(''p'', ''0x3'')]]"
    by (simp add: pending_states_inputs3_Suc0)
  have c: "list_all is_out_of_gas
     (failure_reasons (quoteStates (execute_batches chunk_one_params conflict_and_gas_multicall 1
        (initial_state chunk_one_params inputs3 100))))"
    by (simp add: conflict_and_gas_batches failure_reasons_def)
  have e: "map inputs (quoteStates (snd (attempt chunk_one_params conflict_and_gas_multicall
        (\<lambda>_. 100) inputs3 3 1 (initial_state chunk_one_params inputs3 100))))
      \<noteq> map inputs (quoteStates (initial_state chunk_one_params inputs3 100))"
    unfolding a b by (simp add: inputs3_def)
  show ?thesis
    by (intro conjI c conflict_and_gas_batches a e)
qed

subsection \<open>Layout of the inputs\<close>

lemma length_plan_inputs:
  "length (plan_inputs enc hex fn routes amounts) = length routes * length amounts"
  by (induction routes) (simp_all add: plan_inputs_def Let_def)

lemma nth_concat_blocks:
  assumes "\<And>x. x \<in> set xs \<Longrightarrow> length (f x) = A" and "r < length xs" and "a < A"
  shows "concat (map f xs) ! (r * A + a) = f (xs ! r) ! a"
  using assms
proof (induction xs arbitrary: r)
  case Nil
  then show ?case by simp
next
  case (Cons x xs)
  have lx: "length (f x) = A" using Cons.prems(1) by simp
  show ?case
  proof (cases r)
    case 0
    then show ?thesis using lx Cons.prems(3) by (simp add: nth_append)
  next
    case (Suc r')
    have "concat (map f xs) ! (r' * A + a) = f (xs ! r') ! a"
      using Cons.prems Suc by (intro Cons.IH) auto
    then show ?thesis using Suc lx by (simp add: nth_append)
  qed
qed

lemma nth_plan_inputs:
  assumes "r < length routes" and "a < length amounts"
  shows "plan_inputs enc hex fn routes amounts ! (r * length amounts + a)
           = (enc (routes ! r) (fn = QuoteExactOutput), hex (amounts ! a))"
proof -
  let ?f = "\<lambda>route. map (\<lambda>amount. (enc route (fn = QuoteExactOutput), hex amount)) amounts"
  have "concat (map ?f routes) ! (r * length amounts + a) = ?f (routes ! r) ! a"
    using assms by (intro nth_concat_blocks) simp_all
  then show ?thesis using assms by (simp add: plan_inputs_def Let_def)
qed

subsection \<open>The batches cover the inputs\<close>

lemma pending_states_covers:
  "pending_states ins c = [] \<or> concat (map inputs (pending_states ins c)) = ins"
proof (cases "js_toSize (normalizedChunk (length ins) c)")
  case 0
  then show ?thesis by (simp add: pending_states_def inputsChunked_def)
next
  case (Suc k)
  have "map inputs (map Pending xs) = xs" for xs by (induction xs) simp_all
  then show ?thesis
    using Suc by (simp add: pending_states_def inputsChunked_def concat_chunk)
qed

lemma pending_states_nonempty_chunks:
  "list_all (\<lambda>q. inputs q \<noteq> []) (pending_states ins c)"
  using chunk_member by (fastforce simp: pending_states_def inputsChunked_def list_all_iff)

lemma pending_states_aligned: "list_all aligned_batch (pending_states ins c)"
  by (simp add: pending_states_def list_all_iff)

lemma covers_pending_states:
  "quoteStates cs = pending_states ins c \<Longrightarrow> covers ins cs"
  using pending_states_covers [of ins c]
  by (simp add: covers_def pending_states_nonempty_chunks pending_states_aligned)

lemma covers_initial_state: "covers ins (initial_state p ins b)"
  by (rule covers_pending_states) simp

lemma aligned_run_batch:
  assumes "\<And>n idx ins bn gl res. mc n idx ins bn gl = Inr res \<Longrightarrow> length (results res) = length ins"
    and "aligned_batch q"
  shows "aligned_batch (run_batch p mc n cs numStates idx q)"
proof (cases "run_batch p mc n cs numStates idx q")
  case (Success ins res)
  from run_batch_Success [OF this]
  have i: "ins = inputs q"
    and d: "q = Success ins res
       \<or> mc n idx (inputs q) (providerConfig_blockNumber cs) (gasLimitOverride cs) = Inr res"
    by blast+
  from d have "length (results res) = length ins"
  proof
    assume "q = Success ins res"
    then show ?thesis using assms(2) by simp
  next
    assume "mc n idx (inputs q) (providerConfig_blockNumber cs) (gasLimitOverride cs) = Inr res"
    then show ?thesis using assms(1) i by simp
  qed
  then show ?thesis using Success by simp
qed simp_all

lemma covers_execute_batches:
  assumes "\<And>n idx ins bn gl res. mc n idx ins bn gl = Inr res \<Longrightarrow> length (results res) = length ins"
    and "covers ins cs"
  shows "covers ins (execute_batches p mc n cs)"
proof -
  let ?qs = "quoteStates (execute_batches p mc n cs)"
  have m: "map inputs ?qs = map inputs (quoteStates cs)" by simp
  have 1: "?qs = [] \<or> concat (map inputs ?qs) = ins"
  proof (cases "quoteStates cs = []")
    case True
    then have "?qs = []" by (simp add: quoteStates_execute_batches)
    then show ?thesis by (rule disjI1)
  next
    case False
    then show ?thesis using assms(2) by (simp add: covers_def)
  qed
  have 2: "list_all (\<lambda>q. inputs q \<noteq> []) ?qs"
  proof -
    have "inputs x \<noteq> []" if mem: "x \<in> set ?qs" for x
    proof -
      obtain idx q where q: "q \<in> set (quoteStates cs)"
        and x: "x = run_batch p mc n cs (length (quoteStates cs)) idx q"
        using in_execute_batches [OF mem] by blast
      have "inputs q \<noteq> []" using q assms(2) by (simp add: covers_def list_all_iff)
      then show ?thesis unfolding x by simp
    qed
    then show ?thesis by (simp add: list_all_iff)
  qed
  have 3: "list_all aligned_batch ?qs"
  proof -
    have "aligned_batch x" if mem: "x \<in> set ?qs" for x
    proof -
      obtain idx q where q: "q \<in> set (quoteStates cs)"
        and x: "x = run_batch p mc n cs (length (quoteStates cs)) idx q"
        using in_execute_batches [OF mem] by blast
      have "aligned_batch q" using q assms(2) by (simp add: covers_def list_all_iff)
      then show ?thesis unfolding x using assms(1) by (intro aligned_run_batch) 
    qed
    then show ?thesis by (simp add: list_all_iff)
  qed
  show ?thesis using 1 2 3 by (simp add: covers_def)
qed

lemma covers_attempt:
  assumes "\<And>n idx ins bn gl res. mc n idx ins bn gl = Inr res \<Longrightarrow> length (results res) = length ins"
    and "covers ins cs"
  shows "covers ins (snd (attempt p mc g ins totalCalls n cs))"
proof -
  let ?cs1 = "execute_batches p mc n cs"
  let ?cs' = "attempt_state p mc g ins totalCalls n cs"
  have c1: "covers ins ?cs1" using assms by (rule covers_execute_batches)
  have "quoteStates ?cs' = quoteStates ?cs1
        \<or> quoteStates ?cs' = pending_states ins (multicallChunk ?cs')"
    by (simp add: attempt_state_def Let_def quoteStates_reset_if_retryAll)
  then have "covers ins ?cs'"
  proof
    assume "quoteStates ?cs' = quoteStates ?cs1"
    then show ?thesis using c1 by (simp add: covers_def)
  next
    assume "quoteStates ?cs' = pending_states ins (multicallChunk ?cs')"
    then show ?thesis by (rule covers_pending_states)
  qed
  then show ?thesis by (simp add: attempt_eq)
qed

lemma length_flat_results:
  assumes "list_all aligned_batch qs" and "failures qs = []" and "pendings qs = []"
  shows "length (concat (map results (map snd (successes qs))))
           = length (concat (map inputs qs))"
  using assms by (induction qs rule: successes.induct) simp_all

lemma attempt_outcome_Inr:
  assumes "attempt_outcome qs = Inr (flat, b)"
  shows "failures qs = [] \<and> successes qs \<noteq> []
     \<and> flat = concat (map results (map snd (successes qs)))
     \<and> b = blockNumber (snd (hd (successes qs)))"
  using assms by (auto simp: attempt_outcome_def split: if_splits list.splits)

lemma attempt_returns_all_results:
  assumes al: "\<And>n idx ins bn gl res. mc n idx ins bn gl = Inr res \<Longrightarrow> length (results res) = length ins"
    and cov: "covers ins cs"
    and ret: "attempt p mc g ins totalCalls n cs = (Inr (flat, b), cs')"
  shows "length flat = length ins \<and> ins \<noteq> []"
proof -
  let ?qs = "quoteStates (execute_batches p mc n cs)"
  have c1: "covers ins (execute_batches p mc n cs)" using al cov by (rule covers_execute_batches)
  have out: "attempt_outcome ?qs = Inr (flat, b)" using ret by (simp add: attempt_eq)
  from attempt_outcome_Inr [OF this]
  have f: "failures ?qs = []" and s: "successes ?qs \<noteq> []"
    and fl: "flat = concat (map results (map snd (successes ?qs)))" by simp_all
  have ne: "?qs \<noteq> []" using s by auto
  then have cat: "concat (map inputs ?qs) = ins" using c1 by (simp add: covers_def)
  have "length flat = length (concat (map inputs ?qs))"
    unfolding fl using c1 f by (intro length_flat_results) (simp_all add: covers_def)
  then have 1: "length flat = length ins" by (simp only: cat)
  obtain q qs' where q: "?qs = q # qs'" using ne by (cases ?qs) auto
  have "inputs q \<noteq> []" using c1 q by (simp add: covers_def)
  then have "concat (map inputs ?qs) \<noteq> []" using q by simp
  with cat have 2: "ins \<noteq> []" by metis
  show ?thesis using 1 2 by simp
qed

subsection \<open>The assembler\<close>

lemma fst_getQuotesManyData:
  "fst (getQuotesManyData p enc hex mc g amounts routes fn cfg) =
     (case retry_result p enc hex mc g amounts routes fn cfg of
        Inl err \<Rightarrow> Inl err
      | Inr (quoteResults, bnum) \<Rightarrow>
          Inr (processQuoteResults quoteResults routes amounts, bnum))"
  by (simp add: getQuotesManyData_def retry_result_def Let_def split: prod.splits)

lemma retry_result_length:
  assumes al: "\<And>n idx ins bn gl res. mc n idx ins bn gl = Inr res \<Longrightarrow> length (results res) = length ins"
    and ret: "retry_result p enc hex mc g amounts routes fn cfg = Inr (flat, b)"
  shows "length flat = length routes * length amounts \<and> 0 < length amounts"
proof -
  let ?ins = "plan_inputs enc hex fn routes amounts"
  let ?cs0 = "initial_state p ?ins (case cfg of Some b \<Rightarrow> b | None \<Rightarrow> g 0)"
  let ?f = "attempt p mc g ?ins (length (quoteStates ?cs0))"
  obtain cs' where r: "retry ?f (retries p) 1 ?cs0 = (Inr (flat, b), cs')"
    using ret by (cases "retry ?f (retries p) 1 ?cs0") (simp add: retry_result_def)
  have step: "\<And>n cs. covers ?ins cs \<Longrightarrow> covers ?ins (snd (?f n cs))"
    using al by (rule covers_attempt)
  obtain m c where c: "covers ?ins c" and a: "?f m c = (Inr (flat, b), cs')"
    using retry_returns [where I = "covers ?ins" and f = ?f, OF step covers_initial_state r]
    by blast
  have "length flat = length ?ins \<and> ?ins \<noteq> []"
    using al c a by (rule attempt_returns_all_results)
  then have 1: "length flat = length ?ins" and 2: "length ?ins \<noteq> 0" by simp_all
  have l: "length flat = length routes * length amounts"
    using 1 unfolding length_plan_inputs .
  have ne: "length routes * length amounts \<noteq> 0"
    using 2 unfolding length_plan_inputs .
  show ?thesis using l ne by simp
qed

lemma length_chunk_exact:
  assumes "0 < A" and "length xs = R * A"
  shows "length (chunk xs A) = R"
proof -
  have "R * A + A - 1 = (A - 1) + R * A" using assms(1) by simp
  then have "(R * A + A - 1) div A = (A - 1 + R * A) div A" by simp
  also have "\<dots> = R + (A - 1) div A" using assms(1) by (simp only: div_mult_self1) 
  also have "\<dots> = R" using assms(1) by simp
  finally show ?thesis using assms by (simp add: length_chunk)
qed

lemma nth_chunk_exact:
  assumes "0 < A" and "length xs = R * A" and "r < R"
  shows "chunk xs A ! r = take A (drop (r * A) xs)"
    and "length (chunk xs A ! r) = A"
proof -
  have len: "length (chunk xs A) = R" using assms(1,2) by (rule length_chunk_exact)
  show 1: "chunk xs A ! r = take A (drop (r * A) xs)"
    using assms(3) len by (simp add: chunk_nth)
  have "Suc r * A \<le> R * A" using assms(3) by (intro mult_le_mono1) simp
  then have "r * A + A \<le> length xs" using assms(2) by simp
  then show "length (chunk xs A ! r) = A" unfolding 1 by simp
qed

lemma to_quote_amount [simp]: "amount (to_quote amt qr) = amt"
  by (cases qr) (auto simp: to_quote_def)

lemma to_quote_unsuccessful:
  "\<not> success qr \<Longrightarrow>
     quote (to_quote amt qr) = None \<and> sqrtPriceX96AfterList (to_quote amt qr) = None
     \<and> initializedTicksCrossedList (to_quote amt qr) = None
     \<and> gasEstimate (to_quote amt qr) = None"
  by (cases qr) (auto simp: to_quote_def)

lemma to_quote_successful:
  "to_quote amt (ResultOk (q, sqrtPrices, ticks, gas)) =
     \<lparr>amount = amt, quote = Some q, sqrtPriceX96AfterList = Some sqrtPrices,
      initializedTicksCrossedList = Some ticks, gasEstimate = Some gas\<rparr>"
  by (simp add: to_quote_def)

lemma map_enumerate_nth:
  "i < length xs \<Longrightarrow> map (\<lambda>(k, x). f k x) (enumerate 0 xs) ! i = f i (xs ! i)"
  by (simp add: nth_enumerate_eq)

lemma processQuoteResults_exact:
  assumes "0 < length amounts" and "length flat = length routes * length amounts"
  shows "length (processQuoteResults flat routes amounts) = length routes"
    and "\<forall>r < length routes.
           fst (processQuoteResults flat routes amounts ! r) = Some (routes ! r)
         \<and> length (snd (processQuoteResults flat routes amounts ! r)) = length amounts
         \<and> (\<forall>a < length amounts.
               snd (processQuoteResults flat routes amounts ! r) ! a
                 = to_quote (amounts ! a) (flat ! (r * length amounts + a)))"
proof -
  let ?A = "length amounts"
  let ?R = "length routes"
  have len: "length (chunk flat ?A) = ?R" using assms by (rule length_chunk_exact)
  show "length (processQuoteResults flat routes amounts) = ?R"
    by (simp add: processQuoteResults_def len)
  show "\<forall>r < ?R.
           fst (processQuoteResults flat routes amounts ! r) = Some (routes ! r)
         \<and> length (snd (processQuoteResults flat routes amounts ! r)) = ?A
         \<and> (\<forall>a < ?A.
               snd (processQuoteResults flat routes amounts ! r) ! a
                 = to_quote (amounts ! a) (flat ! (r * ?A + a)))"
  proof (intro allI impI)
    fix r assume r: "r < ?R"
    let ?sl = "chunk flat ?A ! r"
    have sl: "?sl = take ?A (drop (r * ?A) flat)" and lsl: "length ?sl = ?A"
      using assms r by (rule nth_chunk_exact)+
    have p: "processQuoteResults flat routes amounts ! r =
        (js_index routes r,
         map (\<lambda>(index, quoteResult). to_quote (amounts ! index) quoteResult) (enumerate 0 ?sl))"
      using r len by (simp add: processQuoteResults_def nth_enumerate_eq)
    have el: "\<forall>a < ?A. map (\<lambda>(index, quoteResult). to_quote (amounts ! index) quoteResult)
                 (enumerate 0 ?sl) ! a = to_quote (amounts ! a) (flat ! (r * ?A + a))"
    proof (intro allI impI)
      fix a assume a: "a < ?A"
      have "Suc r * ?A \<le> ?R * ?A" using r by (intro mult_le_mono1) simp
      then have "r * ?A + a < length flat" using assms(2) a by simp
      then have "?sl ! a = flat ! (r * ?A + a)" using a by (simp add: sl)
      then show "map (\<lambda>(index, quoteResult). to_quote (amounts ! index) quoteResult)
                 (enumerate 0 ?sl) ! a = to_quote (amounts ! a) (flat ! (r * ?A + a))"
        using a lsl by (simp add: nth_enumerate_eq)
    qed
    show "fst (processQuoteResults flat routes amounts ! r) = Some (routes ! r)
         \<and> length (snd (processQuoteResults flat routes amounts ! r)) = ?A
         \<and> (\<forall>a < ?A.
               snd (processQuoteResults flat routes amounts ! r) ! a
                 = to_quote (amounts ! a) (flat ! (r * ?A + a)))"
      unfolding p using r lsl el by (simp add: js_index_def)
  qed
qed

text \<open>
  Claim C7. Assume the aggregator returns one result per input, as its contract says. For
  every call that returns, with \<open>R\<close> routes and \<open>A\<close> amounts: the flat input vector has
  length \<open>R * A\<close> and holds at position \<open>r * A + a\<close> the encoded route \<open>r\<close> with amount \<open>a\<close>;
  the flat result vector \<open>flat\<close> returned by the retry loop has length \<open>R * A\<close>; and the
  assembler returns \<open>R\<close> pairs, pair \<open>r\<close> holding route \<open>r\<close> and \<open>A\<close> quote records, of which
  record \<open>a\<close> is made from amount \<open>a\<close> and the result at position \<open>r * A + a\<close>: it keeps the
  amount, and when that result was unsuccessful its quote, sqrtPriceX96AfterList,
  initializedTicksCrossedList and gasEstimate are all null.
\<close>

theorem C7_route_major_assembly:
  assumes aligned: "\<forall>n idx ins bn gl res.
                 mc n idx ins bn gl = Inr res \<longrightarrow> length (results res) = length ins"
    and ret: "fst (getQuotesManyData p enc hex mc g amounts routes fn cfg)
                = Inr (routesWithQuotes, b)"
  shows "\<exists>flat.
       retry_result p enc hex mc g amounts routes fn cfg = Inr (flat, b)
     \<and> routesWithQuotes = processQuoteResults flat routes amounts
     \<and> length (plan_inputs enc hex fn routes amounts) = length routes * length amounts
     \<and> (\<forall>r < length routes. \<forall>a < length amounts.
           plan_inputs enc hex fn routes amounts ! (r * length amounts + a)
             = (enc (routes ! r) (fn = QuoteExactOutput), hex (amounts ! a)))
     \<and> length flat = length routes * length amounts
     \<and> length routesWithQuotes = length routes
     \<and> (\<forall>r < length routes.
           fst (routesWithQuotes ! r) = Some (routes ! r)
         \<and> length (snd (routesWithQuotes ! r)) = length amounts
         \<and> (\<forall>a < length amounts.
               snd (routesWithQuotes ! r) ! a
                 = to_quote (amounts ! a) (flat ! (r * length amounts + a))
             \<and> amount (snd (routesWithQuotes ! r) ! a) = amounts ! a
             \<and> (\<not> success (flat ! (r * length amounts + a))
                  \<longrightarrow> quote (snd (routesWithQuotes ! r) ! a) = None
                      \<and> sqrtPriceX96AfterList (snd (routesWithQuotes ! r) ! a) = None
                      \<and> initializedTicksCrossedList (snd (routesWithQuotes ! r) ! a) = None
                      \<and> gasEstimate (snd (routesWithQuotes ! r) ! a) = None)))"
proof -
  have al: "\<And>n idx ins bn gl res.
      mc n idx ins bn gl = Inr res \<Longrightarrow> length (results res) = length ins"
    using aligned by blast
  obtain flat where rr: "retry_result p enc hex mc g amounts routes fn cfg = Inr (flat, b)"
    and rwq: "routesWithQuotes = processQuoteResults flat routes amounts"
    using ret by (auto simp: fst_getQuotesManyData split: sum.splits prod.splits)
  have l: "length flat = length routes * length amounts" and A: "0 < length amounts"
    using retry_result_length [OF al rr] by simp_all
  note pq = processQuoteResults_exact [OF A l]
  have recs: "\<forall>r < length routes.
           fst (routesWithQuotes ! r) = Some (routes ! r)
         \<and> length (snd (routesWithQuotes ! r)) = length amounts
         \<and> (\<forall>a < length amounts.
               snd (routesWithQuotes ! r) ! a
                 = to_quote (amounts ! a) (flat ! (r * length amounts + a))
             \<and> amount (snd (routesWithQuotes ! r) ! a) = amounts ! a
             \<and> (\<not> success (flat ! (r * length amounts + a))
                  \<longrightarrow> quote (snd (routesWithQuotes ! r) ! a) = None
                      \<and> sqrtPriceX96AfterList (snd (routesWithQuotes ! r) ! a) = None
                      \<and> initializedTicksCrossedList (snd (routesWithQuotes ! r) ! a) = None
                      \<and> gasEstimate (snd (routesWithQuotes ! r) ! a) = None))"
    unfolding rwq using pq(2) by (simp add: to_quote_unsuccessful)
  have lay: "\<forall>r < length routes. \<forall>a < length amounts.
           plan_inputs enc hex fn routes amounts ! (r * length amounts + a)
             = (enc (routes ! r) (fn = QuoteExactOutput), hex (amounts ! a))"
    by (simp add: nth_plan_inputs)
  have lr: "length routesWithQuotes = length routes" unfolding rwq by (rule pq(1))
  show ?thesis
    by (intro exI [of _ flat] conjI rr rwq length_plan_inputs lay l lr recs)
qed

subsection \<open>A call that succeeds at once\<close>

lemma retry_returns_at_once:
  "f n cs = (Inr v, cs') \<Longrightarrow> retry f k n cs = (Inr v, cs')"
  by (cases k) simp_all

lemma example_plan_inputs:
  "plan_inputs (\<lambda>route reverse. route) (\<lambda>a. a) fn example_routes example_amounts
     = [(''r0'', ''0xa''), (''r0'', ''0x14''), (''r1'', ''0xa''), (''r1'', ''0x14'')]"
  by (simp add: plan_inputs_def example_routes_def example_amounts_def)

lemma pending_states_one_chunk:
  "ins \<noteq> [] \<Longrightarrow> length ins \<le> c \<Longrightarrow> pending_states ins c = [Pending ins]"
proof -
  assume ne: "ins \<noteq> []" and le: "length ins \<le> c"
  then have c: "0 < c" by (cases ins) auto
  obtain x xs where ins: "ins = x # xs" using ne by (cases ins) auto
  have "length xs < c" using le ins by simp
  then have "(c + length xs) div c = 1" using c by simp
  then have "(length ins + c - 1) div c = 1" by (simp add: ins add.commute)
  then have "spec_normalized (length ins) c = length ins"
    using ne c by (simp add: spec_normalized_nat)
  then show ?thesis
    using ne c by (cases ins) (simp_all add: pending_states_def inputsChunked_pos)
qed

lemma happy_attempt:
  "attempt default_params happy_multicall g
     [(''r0'', ''0xa''), (''r0'', ''0x14''), (''r1'', ''0xa''), (''r1'', ''0x14'')] totalCalls n
     (initial_state default_params
        [(''r0'', ''0xa''), (''r0'', ''0x14''), (''r1'', ''0xa''), (''r1'', ''0x14'')] 100)
   = (Inr ([quote_ok, quote_ok, quote_ok, ResultErr ''0x''], 100),
      attempt_state default_params happy_multicall g
        [(''r0'', ''0xa''), (''r0'', ''0x14''), (''r1'', ''0xa''), (''r1'', ''0x14'')] totalCalls n
        (initial_state default_params
          [(''r0'', ''0xa''), (''r0'', ''0x14''), (''r1'', ''0xa''), (''r1'', ''0x14'')] 100))"
  by (simp add: attempt_eq attempt_outcome_def quoteStates_execute_batches
        pending_states_one_chunk run_batch_def Let_def happy_multicall_def
        validateSuccessRate_def successRate_def js_of_nat_def quote_ok_def)

lemma happy_retry_result:
  "retry_result default_params (\<lambda>route reverse. route) (\<lambda>a. a) happy_multicall (\<lambda>_. 100)
      example_amounts example_routes QuoteExactInput (Some 100)
   = Inr ([quote_ok, quote_ok, quote_ok, ResultErr ''0x''], 100)"
proof -
  let ?ins = "[(''r0'', ''0xa''), (''r0'', ''0x14''), (''r1'', ''0xa''), (''r1'', ''0x14'')]"
  have "fst (retry (attempt default_params happy_multicall (\<lambda>_. 100) ?ins
               (length (quoteStates (initial_state default_params ?ins 100))))
          (retries default_params) 1 (initial_state default_params ?ins 100))
        = Inr ([quote_ok, quote_ok, quote_ok, ResultErr ''0x''], 100)"
    by (subst retry_returns_at_once) (rule happy_attempt, simp)
  then show ?thesis
    by (simp add: retry_result_def example_plan_inputs)
qed

lemma happy_assembly:
  "processQuoteResults [quote_ok, quote_ok, quote_ok, ResultErr ''0x''] example_routes
     example_amounts
   = [(Some ''r0'', [quote_record ''0xa'', quote_record ''0x14'']),
      (Some ''r1'', [quote_record ''0xa'', null_record ''0x14''])]"
  by (simp add: processQuoteResults_def example_routes_def example_amounts_def chunk_pos
        js_index_def to_quote_def quote_ok_def quote_record_def null_record_def)

lemma happy_call:
  "fst (getQuotesManyData default_params (\<lambda>route reverse. route) (\<lambda>a. a) happy_multicall
          (\<lambda>_. 100) example_amounts example_routes QuoteExactInput (Some 100))
   = Inr ([(Some ''r0'', [quote_record ''0xa'', quote_record ''0x14'']),
           (Some ''r1'', [quote_record ''0xa'', null_record ''0x14''])], 100)"
  by (simp add: fst_getQuotesManyData happy_retry_result happy_assembly)

text \<open>Two routes and two amounts fetched in one batch at block 100, the last quote
  unsuccessful: two pairs of two records, the last record null but for its amount.\<close>

theorem C7_route_major_assembly_witness:
  "fst (getQuotesManyData default_params (\<lambda>route reverse. route) (\<lambda>a. a) happy_multicall
          (\<lambda>_. 100) example_amounts example_routes QuoteExactInput (Some 100))
   = Inr ([(Some ''r0'', [quote_record ''0xa'', quote_record ''0x14'']),
           (Some ''r1'', [quote_record ''0xa'', null_record ''0x14''])], 100)
   \<and> retry_result default_params (\<lambda>route reverse. route) (\<lambda>a. a) happy_multicall (\<lambda>_. 100)
        example_amounts example_routes QuoteExactInput (Some 100)
      = Inr ([quote_ok, quote_ok, quote_ok, ResultErr ''0x''], 100)
   \<and> length (plan_inputs (\<lambda>route reverse. route) (\<lambda>a. a) QuoteExactInput example_routes
        example_amounts) = length example_routes * length example_amounts"
proof -
  have al: "\<forall>n idx ins bn gl res.
      happy_multicall n idx ins bn gl = Inr res \<longrightarrow> length (results res) = length ins"
    by (auto simp: happy_multicall_def)
  from C7_route_major_assembly [OF al happy_call]
  have "length (plan_inputs (\<lambda>route reverse. route) (\<lambda>a. a) QuoteExactInput example_routes
        example_amounts) = length example_routes * length example_amounts"
    by blast
  then show ?thesis using happy_call happy_retry_result by simp
qed

subsection \<open>Empty routes or amounts\<close>

lemma plan_inputs_no_routes [simp]: "plan_inputs enc hex fn [] amounts = []"
  by (simp add: plan_inputs_def)

lemma plan_inputs_no_amounts [simp]: "plan_inputs enc hex fn routes [] = []"
  by (induction routes) (simp_all add: plan_inputs_def)

lemma pending_states_Nil [simp]: "pending_states [] c = []"
  by (simp add: pending_states_def inputsChunked_def)

lemma totalCallsMade_attempt_state:
  "totalCallsMade (attempt_state p mc g ins totalCalls n cs) =
     totalCallsMade cs + length (filter (\<lambda>q. \<not> is_success q) (quoteStates cs))"
  by (simp add: attempt_state_def Let_def totalCallsMade_execute_batches)

lemma attempt_no_batches:
  assumes "quoteStates cs = []"
  shows "fst (attempt p mc g [] totalCalls n cs) = Inl UndefinedBlockNumberTypeError
     \<and> quoteStates (snd (attempt p mc g [] totalCalls n cs)) = []
     \<and> totalCallsMade (snd (attempt p mc g [] totalCalls n cs)) = totalCallsMade cs"
proof -
  have e: "quoteStates (execute_batches p mc n cs) = []"
    using assms by (simp add: quoteStates_execute_batches)
  have 1: "fst (attempt p mc g [] totalCalls n cs) = Inl UndefinedBlockNumberTypeError"
    by (simp add: attempt_eq attempt_outcome_def e)
  have 2: "quoteStates (snd (attempt p mc g [] totalCalls n cs)) = []"
    by (simp add: attempt_eq attempt_state_def Let_def quoteStates_reset_if_retryAll e)
  have 3: "totalCallsMade (snd (attempt p mc g [] totalCalls n cs)) = totalCallsMade cs"
    using assms by (simp add: attempt_eq totalCallsMade_attempt_state)
  show ?thesis using 1 2 3 by simp
qed

lemma retry_always_throws:
  assumes step: "\<And>n cs. J cs \<Longrightarrow> fst (f n cs) = Inl e \<and> J (snd (f n cs))"
    and "J cs"
  shows "fst (retry f k n cs) = Inl e \<and> J (snd (retry f k n cs))"
  using assms(2)
proof (induction k arbitrary: n cs)
  case 0
  then show ?case using step by simp
next
  case (Suc k)
  obtain r cs' where f: "f n cs = (r, cs')" by (cases "f n cs")
  have r: "r = Inl e" and j: "J cs'" using step [OF Suc.prems, of n] f by simp_all
  show ?case using Suc.IH [OF j, of "Suc n"] f r by simp
qed

lemma empty_call_throws:
  assumes "plan_inputs enc hex fn routes amounts = []"
  shows "fst (getQuotesManyData p enc hex mc g amounts routes fn cfg)
           = Inl UndefinedBlockNumberTypeError
     \<and> totalCallsMade (snd (getQuotesManyData p enc hex mc g amounts routes fn cfg)) = 0"
proof -
  let ?cs0 = "initial_state p [] (case cfg of Some b \<Rightarrow> b | None \<Rightarrow> g 0)"
  let ?f = "attempt p mc g [] (length (quoteStates ?cs0))"
  let ?J = "\<lambda>cs. quoteStates cs = [] \<and> totalCallsMade cs = 0"
  have step: "\<And>n cs. ?J cs \<Longrightarrow>
      fst (?f n cs) = Inl UndefinedBlockNumberTypeError \<and> ?J (snd (?f n cs))"
    using attempt_no_batches by simp
  have "?J ?cs0" by simp
  with step have r: "fst (retry ?f (retries p) 1 ?cs0) = Inl UndefinedBlockNumberTypeError
      \<and> ?J (snd (retry ?f (retries p) 1 ?cs0))"
    by (rule retry_always_throws)
  then have "retry_result p enc hex mc g amounts routes fn cfg
      = Inl UndefinedBlockNumberTypeError"
    by (simp add: retry_result_def assms)
  then have 1: "fst (getQuotesManyData p enc hex mc g amounts routes fn cfg)
           = Inl UndefinedBlockNumberTypeError"
    by (simp add: fst_getQuotesManyData)
  have 2: "totalCallsMade (snd (getQuotesManyData p enc hex mc g amounts routes fn cfg)) = 0"
    using r by (simp add: snd_getQuotesManyData assms)
  show ?thesis using 1 2 by simp
qed

text \<open>
  Claim C3, evaluated on the code. With no routes or no amounts there are no inputs and no
  batches, and no aggregator call is made (\<open>totalCallsMade\<close> stays 0). But the call does not
  return an empty result: every attempt reaches \<^verbatim>\<open>callResults[0]!.blockNumber\<close> with an
  empty \<^verbatim>\<open>callResults\<close> and throws a \<^verbatim>\<open>TypeError\<close>, the retry loop repeats this until
  its retries are used up, and the call fails with that error.
\<close>

theorem C3_empty_input_throws:
  "fst (getQuotesManyExactIn p enc hex mc g amounts [] cfg) = Inl UndefinedBlockNumberTypeError
   \<and> fst (getQuotesManyExactIn p enc' hex' mc g [] routes cfg)
       = Inl UndefinedBlockNumberTypeError
   \<and> fst (getQuotesManyExactOut p enc hex mc g amounts [] cfg)
       = Inl UndefinedBlockNumberTypeError
   \<and> fst (getQuotesManyExactOut p enc' hex' mc g [] routes cfg)
       = Inl UndefinedBlockNumberTypeError
   \<and> totalCallsMade (snd (getQuotesManyExactIn p enc hex mc g amounts [] cfg)) = 0
   \<and> totalCallsMade (snd (getQuotesManyExactIn p enc' hex' mc g [] routes cfg)) = 0
   \<and> totalCallsMade (snd (getQuotesManyExactOut p enc hex mc g amounts [] cfg)) = 0
   \<and> totalCallsMade (snd (getQuotesManyExactOut p enc' hex' mc g [] routes cfg)) = 0"
  by (simp add: getQuotesManyExactIn_def getQuotesManyExactOut_def empty_call_throws)

subsection \<open>Two successful batches at different blocks\<close>

lemma spec_normalized_one: "0 < N \<Longrightarrow> spec_normalized N (Suc 0) = Suc 0"
proof -
  assume "0 < N"
  then obtain m where N: "N = Suc m" by (cases N) auto
  have "(Suc m + m) div Suc m = 1 + m div Suc m"
    using div_add_self1 [of "Suc m" m] by simp
  then have "(N + N - 1) div N = 1" by (simp add: N)
  then show ?thesis using \<open>0 < N\<close> by (simp add: spec_normalized_nat)
qed

lemma chunk_singletons: "chunk xs (Suc 0) = map (\<lambda>x. [x]) xs"
  by (induction xs) simp_all

lemma pending_states_singletons: "pending_states ins (Suc 0) = map (\<lambda>i. Pending [i]) ins"
proof (cases ins)
  case Nil
  then show ?thesis by (simp add: pending_states_def inputsChunked_def)
next
  case (Cons i rest)
  then have "inputsChunked ins (Suc 0) = chunk ins (Suc 0)"
    by (simp add: inputsChunked_pos spec_normalized_one)
  then show ?thesis by (simp add: pending_states_def chunk_singletons)
qed

lemma two_block_batches:
  "quoteStates (execute_batches chunk_one_params two_block_multicall n
      (initial_state chunk_one_params [(''r0'', ''0xa''), (''r0'', ''0x14'')] 100))
   = [Success [(''r0'', ''0xa'')]
        \<lparr>blockNumber = 100, results = [quote_ok], approxGasUsedPerSuccessCall = 21000\<rparr>,
      Success [(''r0'', ''0x14'')]
        \<lparr>blockNumber = 101, results = [quote_ok], approxGasUsedPerSuccessCall = 21000\<rparr>]"
  by (simp add: quoteStates_execute_batches pending_states_singletons
        run_batch_def Let_def two_block_multicall_def validateSuccessRate_def)

lemma two_block_attempt:
  "attempt chunk_one_params two_block_multicall g [(''r0'', ''0xa''), (''r0'', ''0x14'')]
     totalCalls n
     (initial_state chunk_one_params [(''r0'', ''0xa''), (''r0'', ''0x14'')] 100)
   = (Inr ([quote_ok, quote_ok], 100),
      attempt_state chunk_one_params two_block_multicall g
        [(''r0'', ''0xa''), (''r0'', ''0x14'')] totalCalls n
        (initial_state chunk_one_params [(''r0'', ''0xa''), (''r0'', ''0x14'')] 100))"
  by (simp add: attempt_eq attempt_outcome_def two_block_batches)

lemma two_block_retry:
  "retry (attempt chunk_one_params two_block_multicall g
            [(''r0'', ''0xa''), (''r0'', ''0x14'')] totalCalls)
     k n
     (initial_state chunk_one_params [(''r0'', ''0xa''), (''r0'', ''0x14'')] 100)
   = (Inr ([quote_ok, quote_ok], 100),
      attempt_state chunk_one_params two_block_multicall g
        [(''r0'', ''0xa''), (''r0'', ''0x14'')] totalCalls n
        (initial_state chunk_one_params [(''r0'', ''0xa''), (''r0'', ''0x14'')] 100))"
  by (rule retry_returns_at_once) (rule two_block_attempt)

lemma two_block_plan_inputs:
  "plan_inputs (\<lambda>route reverse. route) (\<lambda>a. a) fn [''r0''] example_amounts
     = [(''r0'', ''0xa''), (''r0'', ''0x14'')]"
  by (simp add: plan_inputs_def example_amounts_def)

lemma two_block_assembly:
  "processQuoteResults [quote_ok, quote_ok] [''r0''] example_amounts
   = [(Some ''r0'', [quote_record ''0xa'', quote_record ''0x14''])]"
  by (simp add: processQuoteResults_def example_amounts_def chunk_pos
        js_index_def to_quote_def quote_ok_def quote_record_def)

text \<open>
  Claim C1, evaluated on the code. One route and two amounts are fetched one input per
  batch; both batches succeed in the first attempt, at blocks 100 and 101.
  \<open>validateBlockNumbers\<close> reports the conflict, but since no batch failed nothing is thrown:
  the call returns after this single attempt (two aggregator calls) with block number 100
  and with both quotes, the second of which was sampled at block 101.
\<close>

theorem C1_mixed_heights_returned:
  "quoteStates (execute_batches chunk_one_params two_block_multicall 1
      (initial_state chunk_one_params [(''r0'', ''0xa''), (''r0'', ''0x14'')] 100))
   = [Success [(''r0'', ''0xa'')]
        \<lparr>blockNumber = 100, results = [quote_ok], approxGasUsedPerSuccessCall = 21000\<rparr>,
      Success [(''r0'', ''0x14'')]
        \<lparr>blockNumber = 101, results = [quote_ok], approxGasUsedPerSuccessCall = 21000\<rparr>]
   \<and> validateBlockNumbers
        (successes (quoteStates (execute_batches chunk_one_params two_block_multicall 1
           (initial_state chunk_one_params [(''r0'', ''0xa''), (''r0'', ''0x14'')] 100))))
        2 1000000
      = Some (BlockConflictError [100, 101] 2 1000000)
   \<and> fst (getQuotesManyData chunk_one_params (\<lambda>route reverse. route) (\<lambda>a. a)
            two_block_multicall (\<lambda>_. 100) example_amounts [''r0''] QuoteExactInput (Some 100))
      = Inr ([(Some ''r0'', [quote_record ''0xa'', quote_record ''0x14''])], 100)
   \<and> totalCallsMade
        (snd (getQuotesManyData chunk_one_params (\<lambda>route reverse. route) (\<lambda>a. a)
            two_block_multicall (\<lambda>_. 100) example_amounts [''r0''] QuoteExactInput (Some 100)))
      = 2"
proof (intro conjI)
  show "quoteStates (execute_batches chunk_one_params two_block_multicall 1
      (initial_state chunk_one_params [(''r0'', ''0xa''), (''r0'', ''0x14'')] 100))
   = [Success [(''r0'', ''0xa'')]
        \<lparr>blockNumber = 100, results = [quote_ok], approxGasUsedPerSuccessCall = 21000\<rparr>,
      Success [(''r0'', ''0x14'')]
        \<lparr>blockNumber = 101, results = [quote_ok], approxGasUsedPerSuccessCall = 21000\<rparr>]"
    by (rule two_block_batches)
  show "validateBlockNumbers
        (successes (quoteStates (execute_batches chunk_one_params two_block_multicall 1
           (initial_state chunk_one_params [(''r0'', ''0xa''), (''r0'', ''0x14'')] 100))))
        2 1000000
      = Some (BlockConflictError [100, 101] 2 1000000)"
    by (simp add: two_block_batches validateBlockNumbers_def)
  show "fst (getQuotesManyData chunk_one_params (\<lambda>route reverse. route) (\<lambda>a. a)
            two_block_multicall (\<lambda>_. 100) example_amounts [''r0''] QuoteExactInput (Some 100))
      = Inr ([(Some ''r0'', [quote_record ''0xa'', quote_record ''0x14''])], 100)"
    by (simp add: fst_getQuotesManyData retry_result_def two_block_plan_inputs
          pending_states_singletons two_block_retry two_block_assembly)
  show "totalCallsMade
        (snd (getQuotesManyData chunk_one_params (\<lambda>route reverse. route) (\<lambda>a. a)
            two_block_multicall (\<lambda>_. 100) example_amounts [''r0''] QuoteExactInput (Some 100)))
      = 2"
    by (simp add: snd_getQuotesManyData two_block_plan_inputs
          pending_states_singletons two_block_retry
          totalCallsMade_attempt_state)
qed


end
